theory Spec2Isabelle
  imports Complex_Main "HOL-Library.Char_ord" "HOL-Library.List_Lexorder"
begin

section \<open>Conventions of the embedding\<close>

text \<open>
  The development embeds the process-snapshot service: the two text parsers
  (\<^verbatim>\<open>app/parsers\<close>), the ingestion pipeline (\<^verbatim>\<open>app/services/data_organizer.py\<close>) and
  the query engine (\<^verbatim>\<open>app/services/query_engine.py\<close>).

  \<^item> A Python exception is a value of \<open>error\<close>; a function that can raise returns
    \<open>error + 'a\<close> with \<open>Inl\<close> for the exception.
  \<^item> A Python \<^verbatim>\<open>float\<close> is idealised as a \<open>real\<close>; the builtin \<^verbatim>\<open>float(s)\<close>, which
    rounds to a double, is a parameter \<open>float_of\<close> of the parsers.
  \<^item> A naive \<^verbatim>\<open>datetime\<close> is the number of microseconds since 0001-01-01T00:00:00, a
    \<^verbatim>\<open>date\<close> is its proleptic Gregorian ordinal (\<^verbatim>\<open>date.toordinal()\<close>), a \<^verbatim>\<open>timedelta\<close> a
    number of microseconds. The range limits of the library types (years 1 to 9999) are
    not modelled.
  \<^item> A Python \<^verbatim>\<open>str\<close> is a \<open>string\<close>; only code points below 256 are represented.
  \<^item> The Redis server is one map from keys to stored values; the JSON text stored under a
    key is represented by the value it encodes.
  \<^item> The clock (\<^verbatim>\<open>datetime.now()\<close>, \<^verbatim>\<open>pd.Timestamp.now()\<close>) is an argument \<open>now\<close>.
\<close>

datatype error =
  HTTPException nat
  | ValueError
  | IndexError
  | TypeError
  | KeyError
  | NotImplementedError
  | DatabaseError

type_synonym datetime = int
type_synonym date = int
type_synonym timedelta = int

definition timedelta_days :: "int \<Rightarrow> timedelta" where
  "timedelta_days n = n * 86400000000"

text \<open>\<^verbatim>\<open>datetime.date()\<close>: the calendar day of a timestamp, as an ordinal.\<close>

definition date_of :: "datetime \<Rightarrow> date" where
  "date_of t = t div 86400000000 + 1"

section \<open>Strings\<close>

text \<open>\<^verbatim>\<open>s.split(sep)\<close> for a separator of one character: never an empty list.\<close>

fun split_char :: "char \<Rightarrow> string \<Rightarrow> string list" where
  "split_char sep [] = [[]]"
| "split_char sep (c # cs) =
     (if c = sep then [] # split_char sep cs
      else (case split_char sep cs of
              [] \<Rightarrow> [[c]]
            | w # ws \<Rightarrow> (c # w) # ws))"

text \<open>\<^verbatim>\<open>s.startswith(p)\<close>.\<close>

definition startswith :: "string \<Rightarrow> string \<Rightarrow> bool" where
  "startswith s p = (take (length p) s = p)"

text \<open>\<^verbatim>\<open>xs.index(y)\<close> for a \<open>y\<close> that occurs in \<open>xs\<close>.\<close>

fun list_index :: "'a list \<Rightarrow> 'a \<Rightarrow> nat" where
  "list_index [] y = 0"
| "list_index (x # xs) y = (if x = y then 0 else Suc (list_index xs y))"

text \<open>
  \<^verbatim>\<open>list(dict.fromkeys(xs))\<close>: the keys of a dictionary filled from \<open>xs\<close> in order. A
  dictionary keeps its keys in insertion order, and setting a key that is present does not
  move it. \<open>d\<close> is the list of keys inserted so far.
\<close>

fun dict_fromkeys :: "'a list \<Rightarrow> 'a list \<Rightarrow> 'a list" where
  "dict_fromkeys d [] = d"
| "dict_fromkeys d (k # ks) = dict_fromkeys (if k \<in> set d then d else d @ [k]) ks"

text \<open>
  White space as \<^verbatim>\<open>str.strip\<close>, \<^verbatim>\<open>str.split\<close> and the pattern \<^verbatim>\<open>\s\<close> know it, for code
  points below 256: 9 to 13, 28 to 32, 133 and 160.
\<close>

definition isspace :: "char \<Rightarrow> bool" where
  "isspace c =
     (let n = (of_char c :: nat)
      in (9 \<le> n \<and> n \<le> 13) \<or> (28 \<le> n \<and> n \<le> 32) \<or> n = 133 \<or> n = 160)"

text \<open>\<^verbatim>\<open>s.strip()\<close>.\<close>

definition strip :: "string \<Rightarrow> string" where
  "strip s = rev (dropWhile isspace (rev (dropWhile isspace s)))"

text \<open>
  \<^verbatim>\<open>re.split(r'\s+', s)\<close>: the pieces between the maximal runs of white space; a run at
  either end leaves an empty piece there. \<open>cur\<close> is the piece being read.
\<close>

function re_split_spaces :: "string \<Rightarrow> string \<Rightarrow> string list" where
  "re_split_spaces cur [] = [cur]"
| "re_split_spaces cur (c # cs) =
     (if isspace c then cur # re_split_spaces [] (dropWhile isspace cs)
      else re_split_spaces (cur @ [c]) cs)"
  by pat_completeness auto
termination
  by (relation "measure (\<lambda>(cur, s). length s)")
    (auto simp: le_imp_less_Suc length_dropWhile_le)

text \<open>\<^verbatim>\<open>s.split()\<close>: the words of \<open>s\<close>, none of them empty.\<close>

definition split_words :: "string \<Rightarrow> string list" where
  "split_words s = filter (\<lambda>w. w \<noteq> []) (re_split_spaces [] s)"

text \<open>\<^verbatim>\<open>' '.join(xs)\<close>.\<close>

fun join_spaces :: "string list \<Rightarrow> string" where
  "join_spaces [] = []"
| "join_spaces [x] = x"
| "join_spaces (x # y # ys) = x @ '' '' @ join_spaces (y # ys)"

text \<open>
  \<^verbatim>\<open>s.splitlines()\<close> for code points below 256: a line ends at \<^verbatim>\<open>\n\<close>, \<^verbatim>\<open>\r\<close>, \<^verbatim>\<open>\r\n\<close>,
  at 11, 12, 28, 29, 30 or 133; no empty line is added after the last line end.
\<close>

definition islinebreak :: "char \<Rightarrow> bool" where
  "islinebreak c =
     (let n = (of_char c :: nat)
      in (10 \<le> n \<and> n \<le> 13) \<or> (28 \<le> n \<and> n \<le> 30) \<or> n = 133)"

fun splitlines_from :: "string \<Rightarrow> string \<Rightarrow> string list" where
  "splitlines_from cur [] = (if cur = [] then [] else [cur])"
| "splitlines_from cur [c] =
     (if islinebreak c then [cur] else [cur @ [c]])"
| "splitlines_from cur (c # d # cs) =
     (if c = CHR 0x0D \<and> d = CHR 0x0A then cur # splitlines_from [] cs
      else if islinebreak c then cur # splitlines_from [] (d # cs)
      else splitlines_from (cur @ [c]) (d # cs))"

definition splitlines :: "string \<Rightarrow> string list" where
  "splitlines s = splitlines_from [] s"

text \<open>\<^verbatim>\<open>s.replace(c, '')\<close> for a single character \<open>c\<close>.\<close>

definition remove_char :: "char \<Rightarrow> string \<Rightarrow> string" where
  "remove_char c s = filter (\<lambda>x. x \<noteq> c) s"

text \<open>\<^verbatim>\<open>s.lower()\<close> for code points below 256.\<close>

definition lower_char :: "char \<Rightarrow> char" where
  "lower_char c =
     (let n = (of_char c :: nat)
      in if (65 \<le> n \<and> n \<le> 90) \<or> (192 \<le> n \<and> n \<le> 222 \<and> n \<noteq> 215)
         then char_of (n + 32) else c)"

definition lower :: "string \<Rightarrow> string" where
  "lower s = map lower_char s"

text \<open>
  \<^verbatim>\<open>int(s)\<close> in base ten: white space around the number is dropped, a sign may lead,
  and single underscores may stand between digits. Anything else raises \<^verbatim>\<open>ValueError\<close>.
\<close>

definition isdigit :: "char \<Rightarrow> bool" where
  "isdigit c = (48 \<le> (of_char c :: nat) \<and> (of_char c :: nat) \<le> 57)"

fun digit_groups :: "string \<Rightarrow> bool" where
  "digit_groups [] = False"
| "digit_groups [c] = isdigit c"
| "digit_groups (c # d # cs) =
     (isdigit c \<and>
      (if d = CHR ''_'' then (case cs of [] \<Rightarrow> False | _ \<Rightarrow> digit_groups cs)
       else digit_groups (d # cs)))"

definition digits_value :: "string \<Rightarrow> int" where
  "digits_value s =
     fold (\<lambda>c n. 10 * n + (int (of_char c) - 48)) (filter isdigit s) 0"

definition py_int :: "string \<Rightarrow> error + int" where
  "py_int s =
     (let t = strip s;
          negative = (case t of [] \<Rightarrow> False | c # cs \<Rightarrow> c = CHR ''-'');
          body = (case t of
                    [] \<Rightarrow> []
                  | c # cs \<Rightarrow> if c = CHR ''-'' \<or> c = CHR ''+'' then cs else t)
      in if digit_groups body
         then Inr (if negative then - digits_value body else digits_value body)
         else Inl ValueError)"

section \<open>Calendar text\<close>

text \<open>
  \<^verbatim>\<open>str(date)\<close> is the ISO form \<^verbatim>\<open>YYYY-MM-DD\<close>. The conversion of an ordinal to year,
  month and day follows the standard library's \<^verbatim>\<open>_ord2ymd\<close>.
\<close>

fun digits10 :: "nat \<Rightarrow> string" where
  "digits10 n =
     (if n < 10 then [char_of (48 + n)]
      else digits10 (n div 10) @ [char_of (48 + n mod 10)])"

declare digits10.simps [simp del]

text \<open>The format \<^verbatim>\<open>%0wd\<close> for a number that is not negative.\<close>

definition zfill :: "nat \<Rightarrow> int \<Rightarrow> string" where
  "zfill w n = replicate (w - length (digits10 (nat n))) CHR ''0'' @ digits10 (nat n)"

definition days_before_month :: "int list" where
  "days_before_month = [0, 31, 59, 90, 120, 151, 181, 212, 243, 273, 304, 334]"

definition days_in_month :: "int list" where
  "days_in_month = [31, 28, 31, 30, 31, 30, 31, 31, 30, 31, 30, 31]"

definition ord2ymd :: "date \<Rightarrow> int \<times> int \<times> int" where
  "ord2ymd ordinal =
     (let n0 = ordinal - 1;
          n400 = n0 div 146097; n1 = n0 mod 146097;
          n100 = n1 div 36524; n2 = n1 mod 36524;
          n4 = n2 div 1461; n3 = n2 mod 1461;
          n1y = n3 div 365; n = n3 mod 365;
          year = n400 * 400 + 1 + n100 * 100 + n4 * 4 + n1y
      in if n1y = 4 \<or> n100 = 4 then (year - 1, 12, 31)
         else
           (let leapyear = (n1y = 3 \<and> (n4 \<noteq> 24 \<or> n100 = 3));
                month = (n + 50) div 32;
                preceding = days_before_month ! nat (month - 1)
                              + (if month > 2 \<and> leapyear then 1 else 0)
            in if preceding > n
               then (let month' = month - 1;
                         preceding' = preceding
                           - (days_in_month ! nat (month' - 1)
                              + (if month' = 2 \<and> leapyear then 1 else 0))
                     in (year, month', n - preceding' + 1))
               else (year, month, n - preceding + 1)))"

definition date_isoformat :: "date \<Rightarrow> string" where
  "date_isoformat d =
     (case ord2ymd d of
        (y, m, dd) \<Rightarrow> zfill 4 y @ ''-'' @ zfill 2 m @ ''-'' @ zfill 2 dd)"

text \<open>
  \<^verbatim>\<open>t.strftime('%Y%m%d%H%M%S')\<close>: the timestamp to the second, fourteen digits (the year
  of a \<^verbatim>\<open>pd.Timestamp\<close> has four).
\<close>

definition strftime_YmdHMS :: "datetime \<Rightarrow> string" where
  "strftime_YmdHMS t =
     (let secs = (t div 1000000) mod 86400
      in case ord2ymd (date_of t) of
           (y, m, dd) \<Rightarrow>
             zfill 4 y @ zfill 2 m @ zfill 2 dd
             @ zfill 2 (secs div 3600) @ zfill 2 ((secs mod 3600) div 60)
             @ zfill 2 (secs mod 60))"

section \<open>Data model\<close>

text \<open>
  \<^verbatim>\<open>models.ProcessData\<close> as a parser constructs it: the eleven columns it sets. The
  columns it leaves unset (\<^verbatim>\<open>id\<close>, \<^verbatim>\<open>timestamp\<close>, \<^verbatim>\<open>machine_name\<close>, \<^verbatim>\<open>machine_id\<close>,
  \<^verbatim>\<open>os_type\<close>) are \<^verbatim>\<open>None\<close>.
\<close>

record process_data =
  pd_user :: string
  pd_pid :: int
  pd_cpu_usage :: real
  pd_mem_usage :: real
  pd_vsz :: int
  pd_rss :: int
  pd_tty :: string
  pd_stat :: string
  pd_start_time :: string
  pd_duration :: string
  pd_command :: string

text \<open>
  The dictionary of \<^verbatim>\<open>ProcessData.to_dict\<close>: fifteen keys, \<^verbatim>\<open>duration\<close> is not among
  them.
\<close>

record process_dict =
  d_id :: "int option"
  d_command :: string
  d_pid :: int
  d_vsz :: int
  d_rss :: int
  d_cpu_usage :: real
  d_mem_usage :: real
  d_tty :: string
  d_stat :: string
  d_start_time :: string
  d_user :: string
  d_timestamp :: "string option"
  d_machine_name :: "string option"
  d_machine_id :: "string option"
  d_os_type :: "string option"

definition to_dict :: "process_data \<Rightarrow> process_dict" where
  "to_dict p =
     \<lparr> d_id = None, d_command = pd_command p, d_pid = pd_pid p, d_vsz = pd_vsz p,
       d_rss = pd_rss p, d_cpu_usage = pd_cpu_usage p, d_mem_usage = pd_mem_usage p,
       d_tty = pd_tty p, d_stat = pd_stat p, d_start_time = pd_start_time p,
       d_user = pd_user p, d_timestamp = None, d_machine_name = None,
       d_machine_id = None, d_os_type = None \<rparr>"

text \<open>The batch metadata: the four keys \<^verbatim>\<open>store_process_data_in_redis\<close> reads.\<close>

record meta_info =
  m_timestamp :: string
  m_machine_name :: string
  m_machine_id :: string
  m_os_type :: string

text \<open>A row of the data frame that \<^verbatim>\<open>process_and_store_data\<close> builds.\<close>

record df_row =
  r_command :: string
  r_pid :: int
  r_vsz :: int
  r_rss :: int
  r_cpu_usage :: real
  r_mem_usage :: real
  r_tty :: string
  r_stat :: string
  r_start_time :: string
  r_user :: string
  r_timestamp :: "datetime option"
  r_machine_name :: string
  r_machine_id :: string
  r_os_type :: string
  r_partition_key :: string

text \<open>
  The value of \<^verbatim>\<open>_update_redis_aggregations\<close> for one partition: two sums, the number of
  distinct commands and two lists of at most ten (command, usage) pairs.
\<close>

record aggregated_data =
  total_cpu_usage :: real
  total_memory_usage :: real
  process_count :: nat
  top_cpu_processes :: "(string \<times> real) list"
  top_memory_processes :: "(string \<times> real) list"

text \<open>What a Redis key holds: a staged batch or the aggregate of a partition.\<close>

datatype redis_value =
  StagedBatch meta_info "process_dict list"
  | Aggregated aggregated_data

type_synonym redis = "string \<rightharpoonup> redis_value"

text \<open>
  A row of the table \<^verbatim>\<open>process_data\<close>. The column \<^verbatim>\<open>timestamp\<close> may hold NULL
  (\<open>None\<close>).
\<close>

record db_row =
  c_id :: nat
  c_command :: string
  c_pid :: int
  c_vsz :: int
  c_rss :: int
  c_cpu_usage :: real
  c_mem_usage :: real
  c_tty :: string
  c_stat :: string
  c_start_time :: string
  c_user :: string
  c_timestamp :: "datetime option"
  c_machine_name :: string
  c_machine_id :: string
  c_os_type :: string

section \<open>The parsers\<close>

subsection \<open>Parsing of \<^verbatim>\<open>ps aux\<close> output\<close>

text \<open>
  The body of the \<^verbatim>\<open>for\<close> loop of \<^verbatim>\<open>UnixParser.parse\<close> for one line. Every exception
  inside the \<^verbatim>\<open>try\<close> becomes the HTTP error 400. \<open>float_of\<close> is \<^verbatim>\<open>float(s)\<close>, with
  \<open>None\<close> for a \<^verbatim>\<open>ValueError\<close>.
\<close>

definition unix_parse_line ::
  "(string \<Rightarrow> real option) \<Rightarrow> string \<Rightarrow> error + process_data" where
  "unix_parse_line float_of line =
     (let fields = re_split_spaces [] (strip line)
      in if length fields \<noteq> 11 then Inl (HTTPException 400)
         else (case (py_int (fields ! 1), float_of (fields ! 2), float_of (fields ! 3),
                     py_int (fields ! 4), py_int (fields ! 5)) of
                 (Inr pid, Some cpu, Some mem, Inr vsz, Inr rss) \<Rightarrow>
                   Inr \<lparr> pd_user = fields ! 0, pd_pid = pid, pd_cpu_usage = cpu,
                         pd_mem_usage = mem, pd_vsz = vsz, pd_rss = rss,
                         pd_tty = fields ! 6, pd_stat = fields ! 7,
                         pd_start_time = fields ! 8, pd_duration = fields ! 9,
                         pd_command = join_spaces (drop 10 fields) \<rparr>
               | _ \<Rightarrow> Inl (HTTPException 400)))"

text \<open>The loop: \<open>process_datas\<close> collects the records, the first error ends the call.\<close>

fun unix_parse_lines ::
  "(string \<Rightarrow> real option) \<Rightarrow> process_data list \<Rightarrow> string list
     \<Rightarrow> error + process_data list" where
  "unix_parse_lines float_of process_datas [] = Inr process_datas"
| "unix_parse_lines float_of process_datas (line # rest) =
     (case unix_parse_line float_of line of
        Inl e \<Rightarrow> Inl e
      | Inr process_data \<Rightarrow>
          unix_parse_lines float_of (process_datas @ [process_data]) rest)"

text \<open>
  \<^verbatim>\<open>UnixParser.parse\<close>. \<open>lines\<close> is the stripped content without its first line; the
  name \<open>header\<close> is then given to the first of the lines that are left, and the loop
  runs over all of them, that one included.
\<close>

definition unix_parse ::
  "(string \<Rightarrow> real option) \<Rightarrow> string \<Rightarrow> error + process_data list" where
  "unix_parse float_of content =
     (let lines = drop 1 (split_char CHR 0x0A (strip content))
      in case lines of
           [] \<Rightarrow> Inl (HTTPException 400)
         | header # _ \<Rightarrow>
             if \<not> startswith header ''USER'' then Inl (HTTPException 400)
             else unix_parse_lines float_of [] lines)"

subsection \<open>Parsing of \<^verbatim>\<open>tasklist\<close> output\<close>

text \<open>The index of the first line whose stripped form starts with \<^verbatim>\<open>=\<close>, else 0.\<close>

fun find_separator :: "nat \<Rightarrow> string list \<Rightarrow> nat" where
  "find_separator i [] = 0"
| "find_separator i (line # rest) =
     (if startswith (strip line) ''='' then i else find_separator (Suc i) rest)"

text \<open>The offsets at which a run of \<^verbatim>\<open>=\<close> starts; \<open>prev\<close> is the character before.\<close>

fun column_starts :: "nat \<Rightarrow> char option \<Rightarrow> string \<Rightarrow> nat list" where
  "column_starts i prev [] = []"
| "column_starts i prev (c # cs) =
     (if c = CHR ''='' \<and> prev \<noteq> Some CHR ''=''
      then i # column_starts (Suc i) (Some c) cs
      else column_starts (Suc i) (Some c) cs)"

text \<open>\<^verbatim>\<open>line[a:b]\<close> for offsets that are not negative.\<close>

definition slice :: "string \<Rightarrow> nat \<Rightarrow> nat \<Rightarrow> string" where
  "slice line a b = take (b - a) (drop a line)"

text \<open>
  The list of fields of one line: a stripped slice for every pair of neighbouring
  offsets, then the first word of the rest of the line. \<^verbatim>\<open>column_positions[-1]\<close> raises
  for an empty list, and so does \<^verbatim>\<open>[0]\<close> on a rest without a word.
\<close>

fun slices :: "string \<Rightarrow> nat list \<Rightarrow> string list" where
  "slices line (a # b # rest) = strip (slice line a b) # slices line (b # rest)"
| "slices line _ = []"

definition windows_fields :: "nat list \<Rightarrow> string \<Rightarrow> error + string list" where
  "windows_fields column_positions line =
     (if column_positions = [] then Inl IndexError
      else (case split_words (drop (last column_positions) line) of
              [] \<Rightarrow> Inl IndexError
            | w # _ \<Rightarrow> Inr (slices line column_positions @ [w])))"

definition windows_parse_line ::
  "(string \<Rightarrow> real option) \<Rightarrow> nat list \<Rightarrow> string \<Rightarrow> error + process_data" where
  "windows_parse_line float_of column_positions line =
     (case windows_fields column_positions line of
        Inl e \<Rightarrow> Inl e
      | Inr row_fields \<Rightarrow>
          if length row_fields < 5 then Inl IndexError
          else (let mem_usage =
                      (case float_of (remove_char CHR ''K'' (remove_char CHR '','' (row_fields ! 4))) of
                         None \<Rightarrow> 0
                       | Some m \<Rightarrow> m)
                in case py_int (row_fields ! 1) of
                     Inl e \<Rightarrow> Inl e
                   | Inr pid \<Rightarrow>
                       Inr \<lparr> pd_user = ''N/A'', pd_pid = pid, pd_cpu_usage = 0,
                             pd_mem_usage = mem_usage, pd_vsz = 0, pd_rss = 0,
                             pd_tty = row_fields ! 2, pd_stat = ''N/A'',
                             pd_start_time = ''N/A'', pd_duration = ''N/A'',
                             pd_command = row_fields ! 0 \<rparr>))"

fun windows_parse_lines ::
  "(string \<Rightarrow> real option) \<Rightarrow> nat list \<Rightarrow> process_data list \<Rightarrow> string list
     \<Rightarrow> error + process_data list" where
  "windows_parse_lines float_of column_positions process_datas [] = Inr process_datas"
| "windows_parse_lines float_of column_positions process_datas (line # rest) =
     (case windows_parse_line float_of column_positions line of
        Inl e \<Rightarrow> Inl e
      | Inr process_data \<Rightarrow>
          windows_parse_lines float_of column_positions (process_datas @ [process_data]) rest)"

definition windows_parse ::
  "(string \<Rightarrow> real option) \<Rightarrow> string \<Rightarrow> error + process_data list" where
  "windows_parse float_of content =
     (let lines = splitlines content;
          separator_line_index = find_separator 0 lines
      in if lines = [] then Inl IndexError
         else windows_parse_lines float_of
                (column_starts 0 None (lines ! separator_line_index)) []
                (drop (separator_line_index + 1) lines))"

subsection \<open>Choice of the parser\<close>

datatype parser = UnixParser | WindowsParser

definition get_parser :: "string \<Rightarrow> error + parser" where
  "get_parser os_type =
     (if lower os_type \<in> set [''linux'', ''unix'', ''mac''] then Inr UnixParser
      else if lower os_type = ''windows'' then Inr WindowsParser
      else Inl ValueError)"

fun parse :: "parser \<Rightarrow> (string \<Rightarrow> real option) \<Rightarrow> string \<Rightarrow> error + process_data list" where
  "parse UnixParser float_of content = unix_parse float_of content"
| "parse WindowsParser float_of content = windows_parse float_of content"

section \<open>The ingestion pipeline\<close>

text \<open>
  The metadata as the caller sends it: a dictionary in which each of the four keys may be
  absent. Reading an absent key raises \<^verbatim>\<open>KeyError\<close>.
\<close>

record meta_info_data =
  mi_timestamp :: "string option"
  mi_machine_name :: "string option"
  mi_machine_id :: "string option"
  mi_os_type :: "string option"

text \<open>
  \<^verbatim>\<open>store_process_data_in_redis\<close>: the key is \<^verbatim>\<open>batch_\<close> followed by the clock reading to
  the second. The result is the key, the number of records and the new Redis content.
\<close>

definition store_process_data_in_redis ::
  "datetime \<Rightarrow> redis \<Rightarrow> meta_info_data \<Rightarrow> process_data list
     \<Rightarrow> error + (string \<times> nat) \<times> redis" where
  "store_process_data_in_redis now redis_client meta_info process_data_list =
     (let batch_id = ''batch_'' @ strftime_YmdHMS now
      in case (mi_timestamp meta_info, mi_machine_name meta_info,
               mi_machine_id meta_info, mi_os_type meta_info) of
           (Some ts, Some name, Some mid, Some os) \<Rightarrow>
             Inr ((batch_id, length process_data_list),
                  redis_client(batch_id \<mapsto>
                    StagedBatch
                      \<lparr> m_timestamp = ts, m_machine_name = name,
                        m_machine_id = mid, m_os_type = os \<rparr>
                      (map to_dict process_data_list)))
         | _ \<Rightarrow> Inl KeyError)"

text \<open>The request body of the ingest call, as \<^verbatim>\<open>receive_and_parse_data\<close> reads it.\<close>

record ingest_data =
  i_os_type :: "string option"
  i_content :: "string option"
  i_meta_info :: meta_info_data

definition receive_and_parse_data ::
  "(string \<Rightarrow> real option) \<Rightarrow> datetime \<Rightarrow> redis \<Rightarrow> ingest_data
     \<Rightarrow> error + (string \<times> nat) \<times> redis" where
  "receive_and_parse_data float_of now redis_client data =
     (case (i_os_type data, i_content data) of
        (Some os_type, Some raw_content) \<Rightarrow>
          if os_type = [] \<or> raw_content = [] then Inl ValueError
          else (case get_parser os_type of
                  Inl e \<Rightarrow> Inl e
                | Inr parser \<Rightarrow>
                    (case parse parser float_of raw_content of
                       Inl e \<Rightarrow> Inl e
                     | Inr parsed_data \<Rightarrow>
                         store_process_data_in_redis now redis_client
                           (i_meta_info data) parsed_data))
      | _ \<Rightarrow> Inl ValueError)"

text \<open>
  The data frame of \<^verbatim>\<open>process_and_store_data\<close>: every process dictionary updated with the
  metadata, the timestamp read by \<^verbatim>\<open>pd.to_datetime(..., errors='coerce')\<close> (a parameter;
  \<open>None\<close> is \<^verbatim>\<open>NaT\<close>), and the partition key \<^verbatim>\<open><day>_<os_type>\<close>.
\<close>

definition partition_key_of :: "datetime option \<Rightarrow> string \<Rightarrow> string" where
  "partition_key_of timestamp os_type =
     (case timestamp of None \<Rightarrow> ''NaT'' | Some t \<Rightarrow> date_isoformat (date_of t))
     @ ''_'' @ os_type"

definition data_frame ::
  "(string \<Rightarrow> datetime option) \<Rightarrow> meta_info \<Rightarrow> process_dict list \<Rightarrow> df_row list" where
  "data_frame to_datetime meta process_data =
     map (\<lambda>process.
            \<lparr> r_command = d_command process, r_pid = d_pid process,
              r_vsz = d_vsz process, r_rss = d_rss process,
              r_cpu_usage = d_cpu_usage process, r_mem_usage = d_mem_usage process,
              r_tty = d_tty process, r_stat = d_stat process,
              r_start_time = d_start_time process, r_user = d_user process,
              r_timestamp = to_datetime (m_timestamp meta),
              r_machine_name = m_machine_name meta,
              r_machine_id = m_machine_id meta, r_os_type = m_os_type meta,
              r_partition_key =
                partition_key_of (to_datetime (m_timestamp meta)) (m_os_type meta) \<rparr>)
         process_data"

text \<open>
  \<^verbatim>\<open>df.nlargest(n, column)\<close>: the \<open>n\<close> rows with the largest values, largest first, rows
  of equal value in their order in the frame.
\<close>

definition nlargest :: "nat \<Rightarrow> ('a \<Rightarrow> real) \<Rightarrow> 'a list \<Rightarrow> 'a list" where
  "nlargest n column rows = take n (sort_key (\<lambda>r. - column r) rows)"

text \<open>The dictionary \<^verbatim>\<open>aggregated_data\<close> of one group.\<close>

definition aggregate :: "df_row list \<Rightarrow> aggregated_data" where
  "aggregate partition_df =
     \<lparr> total_cpu_usage = sum_list (map r_cpu_usage partition_df),
       total_memory_usage = sum_list (map r_mem_usage partition_df),
       process_count = length (remdups (map r_command partition_df)),
       top_cpu_processes =
         map (\<lambda>r. (r_command r, r_cpu_usage r)) (nlargest 10 r_cpu_usage partition_df),
       top_memory_processes =
         map (\<lambda>r. (r_command r, r_mem_usage r)) (nlargest 10 r_mem_usage partition_df) \<rparr>"

text \<open>
  \<^verbatim>\<open>_update_redis_aggregations\<close>: \<^verbatim>\<open>groupby\<close> yields the groups in the order of their
  keys, each with the rows of that key in frame order; every group is written under
  \<^verbatim>\<open>agg_<key>\<close>.
\<close>

definition group_keys :: "df_row list \<Rightarrow> string list" where
  "group_keys df = sort (remdups (map r_partition_key df))"

fun write_groups :: "df_row list \<Rightarrow> string list \<Rightarrow> redis \<Rightarrow> redis" where
  "write_groups df [] redis_client = redis_client"
| "write_groups df (partition_key # rest) redis_client =
     write_groups df rest
       (redis_client(''agg_'' @ partition_key \<mapsto>
          Aggregated (aggregate (filter (\<lambda>r. r_partition_key r = partition_key) df))))"

definition update_redis_aggregations :: "df_row list \<Rightarrow> redis \<Rightarrow> redis" where
  "update_redis_aggregations df redis_client = write_groups df (group_keys df) redis_client"

text \<open>
  \<^verbatim>\<open>_update_sql_database\<close>: one transaction that inserts every row of the frame. The
  database refuses a row whose timestamp is \<^verbatim>\<open>NaT\<close>, and it may refuse the transaction for
  reasons of its own, which is the parameter \<open>commits\<close>; the transaction is then rolled
  back and the exception raised again. Otherwise the rows are appended to the table, and
  the database numbers them.
\<close>

definition to_db_row :: "nat \<Rightarrow> df_row \<Rightarrow> db_row" where
  "to_db_row n r =
     \<lparr> c_id = n, c_command = r_command r, c_pid = r_pid r, c_vsz = r_vsz r,
       c_rss = r_rss r, c_cpu_usage = r_cpu_usage r, c_mem_usage = r_mem_usage r,
       c_tty = r_tty r, c_stat = r_stat r, c_start_time = r_start_time r,
       c_user = r_user r, c_timestamp = r_timestamp r,
       c_machine_name = r_machine_name r, c_machine_id = r_machine_id r,
       c_os_type = r_os_type r \<rparr>"

definition update_sql_database ::
  "(df_row list \<Rightarrow> bool) \<Rightarrow> df_row list \<Rightarrow> db_row list \<Rightarrow> error + db_row list" where
  "update_sql_database commits df db =
     (if list_all (\<lambda>r. r_timestamp r \<noteq> None) df \<and> commits df
      then Inr (db @ map (\<lambda>(i, r). to_db_row (length db + i + 1) r) (enumerate 0 df))
      else Inl DatabaseError)"

text \<open>
  \<^verbatim>\<open>process_and_store_data\<close> on the pair of Redis and the table. A key that holds nothing,
  a value without the two keys of a staged batch, and a batch without records (its frame
  has no column \<^verbatim>\<open>timestamp\<close>) leave both unchanged. The insert into the table comes
  first: its exception is not among those the function catches, so it ends the call
  before any aggregate is written and before the staged batch is deleted, and Redis and
  the table stay as they were. After a successful insert the aggregates are written and
  the staged batch is deleted.
\<close>

definition process_and_store_data ::
  "(df_row list \<Rightarrow> bool) \<Rightarrow> (string \<Rightarrow> datetime option) \<Rightarrow> string
     \<Rightarrow> redis \<times> db_row list \<Rightarrow> error + redis \<times> db_row list" where
  "process_and_store_data commits to_datetime batch_id st =
     (case st of (redis_client, db) \<Rightarrow>
        (case redis_client batch_id of
           None \<Rightarrow> Inr st
         | Some (Aggregated _) \<Rightarrow> Inr st
         | Some (StagedBatch meta process_data) \<Rightarrow>
             if process_data = [] then Inr st
             else (let df = data_frame to_datetime meta process_data
                   in case update_sql_database commits df db of
                        Inl e \<Rightarrow> Inl e
                      | Inr db' \<Rightarrow>
                          Inr ((update_redis_aggregations df redis_client)(batch_id := None),
                               db'))))"

section \<open>The query engine\<close>

subsection \<open>Query parameters\<close>

text \<open>
  The raw parameters are a dictionary; every key may be absent (\<open>None\<close>), present with
  the value \<^verbatim>\<open>None\<close> (\<open>Some None\<close>) or present with a value. \<open>dict_get\<close> is
  \<^verbatim>\<open>d.get(key)\<close> and \<open>dict_get_default\<close> is \<^verbatim>\<open>d.get(key, default)\<close>, which returns the
  default only for an absent key.
\<close>

record query_params =
  p_type :: "string option option"
  p_start_time :: "datetime option option"
  p_end_time :: "datetime option option"
  p_os_type :: "string option option"
  p_machine_id :: "string option option"
  p_command :: "string option option"
  p_cpu_usage_gt :: "real option option"
  p_memory_usage_gt :: "real option option"
  p_limit :: "int option option"
  p_offset :: "int option option"
  p_aggregations :: "string list option option"
  p_group_by :: "string list option option"

definition dict_get :: "'a option option \<Rightarrow> 'a option" where
  "dict_get e = (case e of None \<Rightarrow> None | Some v \<Rightarrow> v)"

definition dict_get_default :: "'a option option \<Rightarrow> 'a \<Rightarrow> 'a option" where
  "dict_get_default e d = (case e of None \<Rightarrow> Some d | Some v \<Rightarrow> v)"

text \<open>The analysed query: all twelve keys are present, a value may be \<^verbatim>\<open>None\<close>.\<close>

record query =
  q_type :: "string option"
  q_start_time :: "datetime option"
  q_end_time :: "datetime option"
  q_os_type :: "string option"
  q_machine_id :: "string option"
  q_command :: "string option"
  q_cpu_usage_gt :: "real option"
  q_memory_usage_gt :: "real option"
  q_limit :: "int option"
  q_offset :: "int option"
  q_aggregations :: "string list option"
  q_group_by :: "string list option"

text \<open>The \<^verbatim>\<open>filters\<close> dictionary: a key is absent (\<open>None\<close>) or holds a value.\<close>

record filters =
  f_os_type :: "string option"
  f_machine_id :: "string option"
  f_command :: "string option"
  f_cpu_usage_gt :: "real option"
  f_memory_usage_gt :: "real option"

text \<open>The optimised query: a copy of the analysed one with the key \<^verbatim>\<open>filters\<close> added.\<close>

record optimized_query = query +
  q_filters :: filters

definition analyze_query :: "query_params \<Rightarrow> query" where
  "analyze_query query_params =
     \<lparr> q_type = dict_get_default (p_type query_params) ''historical'',
       q_start_time = dict_get (p_start_time query_params),
       q_end_time = dict_get (p_end_time query_params),
       q_os_type = dict_get (p_os_type query_params),
       q_machine_id = dict_get (p_machine_id query_params),
       q_command = dict_get (p_command query_params),
       q_cpu_usage_gt = dict_get (p_cpu_usage_gt query_params),
       q_memory_usage_gt = dict_get (p_memory_usage_gt query_params),
       q_limit = dict_get_default (p_limit query_params) 100,
       q_offset = dict_get_default (p_offset query_params) 0,
       q_aggregations = dict_get_default (p_aggregations query_params) [],
       q_group_by = dict_get_default (p_group_by query_params) [] \<rparr>"

subsection \<open>Optimisation\<close>

definition priority_order :: "string list" where
  "priority_order = [''count'', ''sum'', ''avg'', ''min'', ''max'']"

text \<open>The sort key of \<^verbatim>\<open>_optimize_aggregations\<close>.\<close>

definition agg_key :: "string \<Rightarrow> nat" where
  "agg_key x =
     (if hd (split_char CHR ''_'' x) \<in> set priority_order
      then list_index priority_order (hd (split_char CHR ''_'' x))
      else length priority_order)"

text \<open>
  \<^verbatim>\<open>sorted(xs, key=f)\<close> is a stable sort, and so is \<open>sort_key\<close>; a stable sort by a key
  has one result only.
\<close>

definition optimize_aggregations :: "string list \<Rightarrow> string list" where
  "optimize_aggregations aggregations =
     sort_key agg_key (dict_fromkeys [] aggregations)"

definition optimize_filters :: "'a query_scheme \<Rightarrow> filters" where
  "optimize_filters query =
     \<lparr> f_os_type = q_os_type query,
       f_machine_id = q_machine_id query,
       f_command = q_command query,
       f_cpu_usage_gt = (case q_cpu_usage_gt query of
          None \<Rightarrow> None | Some v \<Rightarrow> Some (max 0 v)),
       f_memory_usage_gt = (case q_memory_usage_gt query of
          None \<Rightarrow> None | Some v \<Rightarrow> Some (max 0 v)) \<rparr>"

text \<open>
  \<^verbatim>\<open>_optimize_query\<close>, statement by statement. \<^verbatim>\<open>not optimized.get('limit')\<close> holds for
  \<^verbatim>\<open>None\<close> and for 0. \<^verbatim>\<open>max(None, 0)\<close> raises \<^verbatim>\<open>TypeError\<close>, so an offset that is present
  with the value \<^verbatim>\<open>None\<close> fails the call.
\<close>

definition optimize_query :: "datetime \<Rightarrow> query \<Rightarrow> error + optimized_query" where
  "optimize_query now analyzed_query =
     (let start0 = (case q_start_time analyzed_query of
                      None \<Rightarrow> now - timedelta_days 30 | Some t \<Rightarrow> t);
          end0 = (case q_end_time analyzed_query of None \<Rightarrow> now | Some t \<Rightarrow> t);
          start1 = (if start0 > end0 then end0 else start0);
          end1 = (if start0 > end0 then start0 else end0);
          start2 = (if end1 - start1 > timedelta_days 365
                    then end1 - timedelta_days 365 else start1);
          limit0 = (case q_limit analyzed_query of
                      None \<Rightarrow> 100 | Some l \<Rightarrow> if l = 0 then 100 else l);
          limit1 = min limit0 1000
      in case q_offset analyzed_query of
           None \<Rightarrow> Inl TypeError
         | Some off \<Rightarrow>
             (let aggs = (case q_aggregations analyzed_query of
                            None \<Rightarrow> None
                          | Some a \<Rightarrow> if a = [] then Some a
                                      else Some (optimize_aggregations a));
                  optimized = analyzed_query
                    \<lparr> q_start_time := Some start2, q_end_time := Some end1,
                      q_limit := Some limit1, q_offset := Some (max off 0),
                      q_aggregations := aggs \<rparr>
              in Inr (query.extend optimized
                        (optimized_query.fields (optimize_filters optimized)))))"

subsection \<open>Choice of the data source\<close>

definition pre_aggregated_aggs :: "string list" where
  "pre_aggregated_aggs = [''total_cpu_usage'', ''total_memory_usage'', ''process_count'']"

definition select_data_source :: "'a query_scheme \<Rightarrow> string" where
  "select_data_source optimized_query =
     (if q_type optimized_query = Some ''real_time'' then ''raw_data_store''
      else (case q_aggregations optimized_query of
              None \<Rightarrow> ''sql_store''
            | Some aggregations \<Rightarrow>
                if aggregations = [] then ''sql_store''
                else if list_all (\<lambda>agg. agg \<in> set pre_aggregated_aggs) aggregations
                then ''pre_aggregated_store''
                else ''sql_store''))"

subsection \<open>Execution on the aggregates in Redis\<close>

text \<open>
  \<^verbatim>\<open>_get_aggregated_data\<close> without its decorator: the value stored under
  \<^verbatim>\<open>agg_<partition_key>\<close>, or the empty dictionary, which is \<open>None\<close> here.
\<close>

definition fetch_aggregated_data :: "redis \<Rightarrow> string \<Rightarrow> redis_value option" where
  "fetch_aggregated_data redis_client partition_key =
     redis_client (''agg_'' @ partition_key)"

text \<open>
  The decorator \<^verbatim>\<open>functools.lru_cache(maxsize=128)\<close>. The cache is a list of (argument,
  result) pairs, the most recently used first. A hit returns the stored result and moves
  the entry to the front; a miss calls the function, stores the result at the front and,
  when the cache was full, drops the entry at the end. The cache belongs to the process:
  it is threaded through every call.
\<close>

type_synonym lru = "(string \<times> redis_value option) list"

definition maxsize :: nat where
  "maxsize = 128"

definition get_aggregated_data ::
  "redis \<Rightarrow> lru \<Rightarrow> string \<Rightarrow> redis_value option \<times> lru" where
  "get_aggregated_data redis_client cache partition_key =
     (case map_of cache partition_key of
        Some v \<Rightarrow>
          (v, (partition_key, v) # filter (\<lambda>e. fst e \<noteq> partition_key) cache)
      | None \<Rightarrow>
          (let v = fetch_aggregated_data redis_client partition_key
           in (v, take maxsize ((partition_key, v) # cache))))"

text \<open>
  What the inner \<^verbatim>\<open>for\<close> of \<^verbatim>\<open>_execute_on_pre_aggregated\<close> iterates over: the value of
  \<^verbatim>\<open>filters['os_type']\<close> when the key is present, else the list of three tags. The value
  of the filter is a string, and iterating over a string yields its characters, each
  a string of length one.
\<close>

definition os_type_iteration :: "filters \<Rightarrow> string list" where
  "os_type_iteration fs =
     (case f_os_type fs of
        None \<Rightarrow> [''windows'', ''linux'', ''mac'']
      | Some v \<Rightarrow> map (\<lambda>c. [c]) v)"

text \<open>The inner loop for one date: the results so far and the cache are the state.\<close>

fun os_type_loop ::
  "redis \<Rightarrow> string \<Rightarrow> string list \<Rightarrow> redis_value list \<times> lru
     \<Rightarrow> redis_value list \<times> lru" where
  "os_type_loop redis_client current_date [] (results, cache) = (results, cache)"
| "os_type_loop redis_client current_date (os_type # rest) (results, cache) =
     (case get_aggregated_data redis_client cache (current_date @ ''_'' @ os_type) of
        (None, cache') \<Rightarrow> os_type_loop redis_client current_date rest (results, cache')
      | (Some aggregated, cache') \<Rightarrow>
          os_type_loop redis_client current_date rest (results @ [aggregated], cache'))"

text \<open>The \<^verbatim>\<open>while current_date <= end_date\<close> loop.\<close>

function date_loop ::
  "redis \<Rightarrow> string list \<Rightarrow> date \<Rightarrow> date \<Rightarrow> redis_value list \<times> lru
     \<Rightarrow> redis_value list \<times> lru" where
  "date_loop redis_client os_types current_date end_date st =
     (if current_date \<le> end_date
      then date_loop redis_client os_types (current_date + 1) end_date
             (os_type_loop redis_client (date_isoformat current_date) os_types st)
      else st)"
  by pat_completeness auto
termination
  by (relation "measure (\<lambda>(r, os, c, e, st). nat (e + 1 - c))") auto

declare date_loop.simps [simp del]

text \<open>
  \<^verbatim>\<open>_execute_on_pre_aggregated\<close>. The optimised query always holds both times; a query
  without one raises at \<^verbatim>\<open>None.date()\<close>.
\<close>

definition execute_on_pre_aggregated ::
  "redis \<Rightarrow> lru \<Rightarrow> optimized_query \<Rightarrow> error + redis_value list \<times> lru" where
  "execute_on_pre_aggregated redis_client cache optimized_query =
     (case (q_start_time optimized_query, q_end_time optimized_query) of
        (Some start_time, Some end_time) \<Rightarrow>
          Inr (date_loop redis_client (os_type_iteration (q_filters optimized_query))
                 (date_of start_time) (date_of end_time) ([], cache))
      | _ \<Rightarrow> Inl TypeError)"

subsection \<open>Execution on the SQL table\<close>

text \<open>
  The database is outside the repository. The table is the list of its rows in the order
  the engine scans them. Two operations of the engine are parameters: the operator
  \<^verbatim>\<open>ILIKE\<close> (column value, pattern) and the evaluation of a grouped or aggregated
  projection (group-by columns, aggregation names, the rows that passed the filters),
  which the engine may refuse.
\<close>

datatype sql_value = SqlNull | SqlInt int | SqlReal real | SqlText string

datatype result_row =
  RecordRow db_row
  | ProjectedRow "(string \<times> sql_value) list"
  | StoredRow redis_value

record sql_engine =
  ilike :: "string \<Rightarrow> string \<Rightarrow> bool"
  grouped_projection ::
    "string list \<Rightarrow> string list \<Rightarrow> db_row list \<Rightarrow> error + result_row list"

text \<open>
  The conjunction of the filters \<^verbatim>\<open>_execute_on_sql\<close> adds. Each is read from the top level
  of the optimised query, not from its \<^verbatim>\<open>filters\<close>. A test \<^verbatim>\<open>if optimized_query.get(k)\<close>
  fails for \<^verbatim>\<open>None\<close> and for the empty string; a comparison with NULL selects no row.
\<close>

definition sql_filter :: "sql_engine \<Rightarrow> 'a query_scheme \<Rightarrow> db_row \<Rightarrow> bool" where
  "sql_filter engine optimized_query row =
     ((case q_start_time optimized_query of
         None \<Rightarrow> True
       | Some s \<Rightarrow> (case c_timestamp row of None \<Rightarrow> False | Some t \<Rightarrow> s \<le> t))
      \<and> (case q_end_time optimized_query of
         None \<Rightarrow> True
       | Some e \<Rightarrow> (case c_timestamp row of None \<Rightarrow> False | Some t \<Rightarrow> t \<le> e))
      \<and> (case q_os_type optimized_query of
         None \<Rightarrow> True
       | Some v \<Rightarrow> if v = [] then True else c_os_type row = v)
      \<and> (case q_machine_id optimized_query of
         None \<Rightarrow> True
       | Some v \<Rightarrow> if v = [] then True else c_machine_id row = v)
      \<and> (case q_command optimized_query of
         None \<Rightarrow> True
       | Some v \<Rightarrow> if v = [] then True
                  else ilike engine (c_command row) (''%'' @ v @ ''%''))
      \<and> (case q_cpu_usage_gt optimized_query of
         None \<Rightarrow> True
       | Some v \<Rightarrow> c_cpu_usage row > v)
      \<and> (case q_memory_usage_gt optimized_query of
         None \<Rightarrow> True
       | Some v \<Rightarrow> c_mem_usage row > v))"

text \<open>
  \<^verbatim>\<open>LIMIT\<close> and \<^verbatim>\<open>OFFSET\<close> as PostgreSQL, the configured database, applies them: a
  negative number is an error, \<^verbatim>\<open>None\<close> is no clause.
\<close>

definition limit_offset ::
  "int option \<Rightarrow> int option \<Rightarrow> 'a list \<Rightarrow> error + 'a list" where
  "limit_offset limit offset rows =
     (if (case limit of None \<Rightarrow> False | Some l \<Rightarrow> l < 0)
         \<or> (case offset of None \<Rightarrow> False | Some off \<Rightarrow> off < 0)
      then Inl DatabaseError
      else (let skipped = (case offset of None \<Rightarrow> rows | Some off \<Rightarrow> drop (nat off) rows)
            in Inr (case limit of None \<Rightarrow> skipped | Some l \<Rightarrow> take (nat l) skipped)))"

definition execute_on_sql ::
  "sql_engine \<Rightarrow> db_row list \<Rightarrow> 'a query_scheme \<Rightarrow> error + result_row list" where
  "execute_on_sql engine db optimized_query =
     (let selected = filter (sql_filter engine optimized_query) db;
          group_by = (case q_group_by optimized_query of None \<Rightarrow> [] | Some g \<Rightarrow> g);
          aggregations = (case q_aggregations optimized_query of None \<Rightarrow> [] | Some a \<Rightarrow> a);
          projected = (if group_by = [] \<and> aggregations = []
                       then Inr (map RecordRow selected)
                       else grouped_projection engine group_by aggregations selected)
      in case projected of
           Inl e \<Rightarrow> Inl e
         | Inr rows \<Rightarrow>
             limit_offset (q_limit optimized_query) (q_offset optimized_query) rows)"

subsection \<open>The four stages\<close>

definition execute_optimized_query ::
  "sql_engine \<Rightarrow> redis \<Rightarrow> db_row list \<Rightarrow> lru \<Rightarrow> optimized_query \<Rightarrow> string
     \<Rightarrow> error + result_row list \<times> lru" where
  "execute_optimized_query engine redis_client db cache optimized_query data_source =
     (if data_source = ''pre_aggregated_store''
      then (case execute_on_pre_aggregated redis_client cache optimized_query of
              Inl e \<Rightarrow> Inl e
            | Inr (results, cache') \<Rightarrow> Inr (map StoredRow results, cache'))
      else if data_source = ''sql_store''
      then (case execute_on_sql engine db optimized_query of
              Inl e \<Rightarrow> Inl e
            | Inr results \<Rightarrow> Inr (results, cache))
      else Inl NotImplementedError)"

text \<open>\<^verbatim>\<open>execute_query\<close>: the count, the rows, and the cache after the call.\<close>

definition execute_query ::
  "sql_engine \<Rightarrow> redis \<Rightarrow> db_row list \<Rightarrow> lru \<Rightarrow> datetime \<Rightarrow> query_params
     \<Rightarrow> error + (nat \<times> result_row list) \<times> lru" where
  "execute_query engine redis_client db cache now query_params =
     (case optimize_query now (analyze_query query_params) of
        Inl e \<Rightarrow> Inl e
      | Inr optimized_query \<Rightarrow>
          (case execute_optimized_query engine redis_client db cache optimized_query
                  (select_data_source optimized_query) of
             Inl e \<Rightarrow> Inl e
           | Inr (result, cache') \<Rightarrow> Inr ((length result, result), cache')))"

section \<open>Definitions used in the statements\<close>

text \<open>
  The aggregation list as the specification words it: duplicates removed with the first
  occurrence kept, and the priority of a name read from the text before its first
  underscore.
\<close>

fun keep_first_occurrences :: "'a list \<Rightarrow> 'a list" where
  "keep_first_occurrences [] = []"
| "keep_first_occurrences (x # xs) = x # keep_first_occurrences (removeAll x xs)"

definition aggregation_priority :: "string \<Rightarrow> nat" where
  "aggregation_priority x =
     (let prefix = takeWhile (\<lambda>c. c \<noteq> CHR ''_'') x
      in if prefix = ''count'' then 0
         else if prefix = ''sum'' then 1
         else if prefix = ''avg'' then 2
         else if prefix = ''min'' then 3
         else if prefix = ''max'' then 4
         else 5)"

text \<open>
  A run of the process: calls of \<^verbatim>\<open>_get_aggregated_data\<close> one after the other, each
  against the content Redis has at that moment. Only the cache is carried along.
\<close>

fun lookups :: "lru \<Rightarrow> (redis \<times> string) list \<Rightarrow> lru" where
  "lookups cache [] = cache"
| "lookups cache ((redis_client, partition_key) # rest) =
     lookups (snd (get_aggregated_data redis_client cache partition_key)) rest"

text \<open>
  The partition keys a query on the aggregates looks up, in the order of its two loops,
  and the values a run of lookups returns.
\<close>

definition partition_keys :: "string list \<Rightarrow> date \<Rightarrow> date \<Rightarrow> string list" where
  "partition_keys os_types start_date end_date =
     concat (map (\<lambda>d. map (\<lambda>os_type. date_isoformat d @ ''_'' @ os_type) os_types)
               [start_date..end_date])"

fun returned :: "lru \<Rightarrow> (redis \<times> string) list \<Rightarrow> redis_value option list" where
  "returned cache [] = []"
| "returned cache ((redis_client, partition_key) # rest) =
     fst (get_aggregated_data redis_client cache partition_key)
     # returned (snd (get_aggregated_data redis_client cache partition_key)) rest"

fun present :: "'a option list \<Rightarrow> 'a list" where
  "present [] = []"
| "present (None # vs) = present vs"
| "present (Some a # vs) = a # present vs"

text \<open>Every entry of the cache is what Redis holds now.\<close>

definition fresh :: "redis \<Rightarrow> lru \<Rightarrow> bool" where
  "fresh redis_client cache =
     list_all (\<lambda>e. snd e = fetch_aggregated_data redis_client (fst e)) cache"

text \<open>
  Two invariants of the cache for a key \<open>k\<close>. \<open>held\<close>: the entry of \<open>k\<close> is present with
  value \<open>v\<close> and the keys in front of it lie in \<open>T\<close>. \<open>ahead\<close>: the cache is within its
  size and, while \<open>k\<close> is present, the keys in front of it are exactly those of \<open>S\<close>.
\<close>

definition held :: "lru \<Rightarrow> string \<Rightarrow> redis_value option \<Rightarrow> string set \<Rightarrow> bool" where
  "held c k v T =
     (distinct (map fst c) \<and> (\<exists>pre post. c = pre @ (k, v) # post \<and> fst ` set pre \<subseteq> T))"

definition ahead :: "lru \<Rightarrow> string \<Rightarrow> string set \<Rightarrow> bool" where
  "ahead c k S =
     (distinct (map fst c) \<and> length c \<le> maxsize
      \<and> (k \<in> fst ` set c \<longrightarrow> set (takeWhile (\<lambda>x. x \<noteq> k) (map fst c)) = S))"

subsection \<open>Concrete inputs\<close>

text \<open>The empty dictionary of query parameters.\<close>

definition no_params :: query_params where
  "no_params =
     \<lparr> p_type = None, p_start_time = None, p_end_time = None, p_os_type = None,
       p_machine_id = None, p_command = None, p_cpu_usage_gt = None,
       p_memory_usage_gt = None, p_limit = None, p_offset = None,
       p_aggregations = None, p_group_by = None \<rparr>"

text \<open>A database engine for closed examples that never reach its two operations.\<close>

definition idle_engine :: sql_engine where
  "idle_engine = \<lparr> ilike = (\<lambda>value pattern. False),
                    grouped_projection = (\<lambda>group_by aggregations rows. Inr []) \<rparr>"

text \<open>Midnight of 2024-01-01 is 738885 days after the origin.\<close>

definition jan_1_2024 :: datetime where
  "jan_1_2024 = 738885 * 86400000000"

text \<open>A row as the \<^verbatim>\<open>tasklist\<close> parser produces it: the CPU usage is 0.\<close>

definition idle_row :: db_row where
  "idle_row =
     \<lparr> c_id = 1, c_command = ''System Idle Process'', c_pid = 0, c_vsz = 0, c_rss = 0,
       c_cpu_usage = 0, c_mem_usage = 8, c_tty = ''Services'', c_stat = ''N/A'',
       c_start_time = ''N/A'', c_user = ''N/A'', c_timestamp = Some jan_1_2024,
       c_machine_name = ''test-machine'', c_machine_id = ''123456'',
       c_os_type = ''windows'' \<rparr>"

definition linux_rollup :: aggregated_data where
  "linux_rollup =
     \<lparr> total_cpu_usage = 3, total_memory_usage = 2, process_count = 2,
       top_cpu_processes = [(''python3'', 2), (''init'', 1)],
       top_memory_processes = [(''init'', 1), (''python3'', 1)] \<rparr>"

text \<open>A listing of \<^verbatim>\<open>ps aux\<close> with its header and one process.\<close>

definition ps_listing :: string where
  "ps_listing =
     ''USER PID %CPU %MEM VSZ RSS TTY STAT START TIME COMMAND'' @ [CHR 0x0A]
     @ ''root 1 0.0 0.1 169000 11000 ? Ss 10:00 0:01 /sbin/init''"

text \<open>
  A listing whose first line is the header and whose only process belongs to a user
  named \<^verbatim>\<open>USER1\<close> and was started with two arguments.
\<close>

definition ps_listing_arguments :: string where
  "ps_listing_arguments =
     ''USER PID %CPU %MEM VSZ RSS TTY STAT START TIME COMMAND'' @ [CHR 0x0A]
     @ ''USER1 812 0.0 0.1 169000 11000 ? Ss 10:00 0:01 /usr/bin/python3 -m http.server''"

text \<open>A text whose first line is not a header of \<^verbatim>\<open>ps aux\<close>.\<close>

definition ps_listing_bad_header :: string where
  "ps_listing_bad_header =
     ''UID PID %CPU %MEM VSZ RSS TTY STAT START TIME COMMAND'' @ [CHR 0x0A]
     @ ''USER1 1 0.0 0.1 169000 11000 ? Ss 10:00 0:01 /sbin/init''"

definition test_meta :: meta_info_data where
  "test_meta =
     \<lparr> mi_timestamp = Some ''2024-01-01T12:00:00'', mi_machine_name = Some ''test-machine'',
       mi_machine_id = Some ''123456'', mi_os_type = Some ''linux'' \<rparr>"

definition staged_meta :: meta_info where
  "staged_meta =
     \<lparr> m_timestamp = ''2024-01-01T12:00:00'', m_machine_name = ''test-machine'',
       m_machine_id = ''123456'', m_os_type = ''linux'' \<rparr>"

definition process_named :: "string \<Rightarrow> real \<Rightarrow> real \<Rightarrow> process_data" where
  "process_named command cpu mem =
     \<lparr> pd_user = ''root'', pd_pid = 1, pd_cpu_usage = cpu, pd_mem_usage = mem,
       pd_vsz = 0, pd_rss = 0, pd_tty = ''?'', pd_stat = ''S'', pd_start_time = ''10:00'',
       pd_duration = ''0:01'', pd_command = command \<rparr>"

definition frame_row :: "string \<Rightarrow> real \<Rightarrow> real \<Rightarrow> string \<Rightarrow> df_row" where
  "frame_row command cpu mem partition_key =
     \<lparr> r_command = command, r_pid = 1, r_vsz = 0, r_rss = 0, r_cpu_usage = cpu,
       r_mem_usage = mem, r_tty = ''?'', r_stat = ''S'', r_start_time = ''10:00'',
       r_user = ''root'', r_timestamp = Some jan_1_2024, r_machine_name = ''test-machine'',
       r_machine_id = ''123456'', r_os_type = ''linux'', r_partition_key = partition_key \<rparr>"

text \<open>A frame with two partitions; two rows of the first share command and CPU usage.\<close>

definition example_frame :: "df_row list" where
  "example_frame =
     [frame_row ''init'' 1 4 ''2024-01-01_linux'',
      frame_row ''System'' 0 8 ''2024-01-01_windows'',
      frame_row ''python3'' 2 1 ''2024-01-01_linux'',
      frame_row ''init'' 1 2 ''2024-01-01_linux'']"

text \<open>\<^verbatim>\<open>pd.to_datetime\<close> on the one timestamp the examples use.\<close>

definition example_to_datetime :: "string \<Rightarrow> datetime option" where
  "example_to_datetime s =
     (if s = ''2024-01-01T12:00:00'' then Some (jan_1_2024 + 43200000000) else None)"

text \<open>
  Output of \<^verbatim>\<open>tasklist\<close>: an empty line, the column titles, the separator line and two
  processes, the first without a memory figure.
\<close>

definition tasklist_listing :: string where
  "tasklist_listing =
     [CHR 0x0A]
     @ ''Image Name                     PID Session Name        Session#    Mem Usage''
     @ [CHR 0x0D, CHR 0x0A]
     @ ''========================= ======== ================ =========== ============''
     @ [CHR 0x0D, CHR 0x0A]
     @ ''System Idle Process              0 Services                   0          N/A''
     @ [CHR 0x0D, CHR 0x0A]
     @ ''svchost.exe                    984 Services                   0     12,345 K''
     @ [CHR 0x0D, CHR 0x0A]"

text \<open>A stand-in for \<^verbatim>\<open>float\<close> that reads the one number of that listing.\<close>

definition float_12345 :: "string \<Rightarrow> real option" where
  "float_12345 s = (if s = ''12345'' then Some 12345 else None)"

text \<open>Redis with two staged batches of the same day and operating system.\<close>

definition two_staged :: redis where
  "two_staged =
     [''batch_20240101120000'' \<mapsto>
        StagedBatch staged_meta [to_dict (process_named ''init'' 1 1)],
      ''batch_20240101120001'' \<mapsto>
        StagedBatch staged_meta
          [to_dict (process_named ''python3'' 2 1), to_dict (process_named ''bash'' 0 1)]]"

text \<open>
  Redis with a staged batch whose timestamp pandas cannot read, and a database that
  commits every transaction.
\<close>

definition unreadable_staged :: redis where
  "unreadable_staged =
     [''batch_20240101120002'' \<mapsto>
        StagedBatch (staged_meta \<lparr>m_timestamp := ''not_a_timestamp''\<rparr>)
          [to_dict (process_named ''init'' 1 1)]]"

definition always_commits :: "df_row list \<Rightarrow> bool" where
  "always_commits df = True"

text \<open>An optimised query of the given type and aggregations, for one day, no filter.\<close>

definition planned_query :: "string \<Rightarrow> string list \<Rightarrow> optimized_query" where
  "planned_query type aggregations =
     \<lparr> q_type = Some type, q_start_time = Some jan_1_2024, q_end_time = Some jan_1_2024,
       q_os_type = None, q_machine_id = None, q_command = None, q_cpu_usage_gt = None,
       q_memory_usage_gt = None, q_limit = Some 100, q_offset = Some 0,
       q_aggregations = Some aggregations, q_group_by = Some [],
       q_filters = \<lparr> f_os_type = None, f_machine_id = None, f_command = None,
                     f_cpu_usage_gt = None, f_memory_usage_gt = None \<rparr> \<rparr>"

section \<open>The optimisation of a query\<close>

subsection \<open>Aggregations\<close>

lemma split_char_nonempty: "split_char sep s \<noteq> []"
  by (induction s) (auto split: list.splits)

lemma hd_split_char: "hd (split_char sep s) = takeWhile (\<lambda>c. c \<noteq> sep) s"
  using split_char_nonempty[of sep]
  by (induction s) (auto split: list.splits)

lemma agg_key_priority: "agg_key x = aggregation_priority x"
  by (simp add: agg_key_def aggregation_priority_def hd_split_char priority_order_def Let_def)

lemma dict_fromkeys_keep_first:
  "dict_fromkeys d ks = d @ keep_first_occurrences (filter (\<lambda>k. k \<notin> set d) ks)"
proof (induction ks arbitrary: d)
  case Nil
  then show ?case by simp
next
  case (Cons k ks)
  show ?case
  proof (cases "k \<in> set d")
    case True
    then show ?thesis by (simp add: Cons.IH)
  next
    case False
    have "removeAll k (filter (\<lambda>k. k \<notin> set d) ks) = filter (\<lambda>x. x \<notin> set (d @ [k])) ks"
      by (induction ks) auto
    with False show ?thesis by (simp add: Cons.IH)
  qed
qed

lemma optimize_aggregations_example:
  "optimize_aggregations [''avg_cpu'', ''count_pid'', ''sum_mem''] = [''count_pid'', ''sum_mem'', ''avg_cpu'']"
  by (simp add: optimize_aggregations_def agg_key_def priority_order_def)


lemma set_keep_first_occurrences: "set (keep_first_occurrences xs) = set xs"
  by (induction xs rule: keep_first_occurrences.induct) auto

lemma distinct_keep_first_occurrences: "distinct (keep_first_occurrences xs)"
  by (induction xs rule: keep_first_occurrences.induct)
    (auto simp: set_keep_first_occurrences)

lemma keep_first_occurrences_distinct:
  "distinct xs \<Longrightarrow> keep_first_occurrences xs = xs"
  by (induction xs) (auto simp: removeAll_id)

lemma optimize_query_Inr_aggregations:
  "map_sum id q_aggregations (optimize_query now (q \<lparr>q_offset := Some off\<rparr>))
     = Inr (map_option optimize_aggregations (q_aggregations q))"
proof -
  have "optimize_aggregations [] = []"
    by (simp add: optimize_aggregations_def)
  then show ?thesis
    by (cases "q_aggregations q") (simp_all add: optimize_query_def Let_def query.defs)
qed

text \<open>
  Claim C9. \<^verbatim>\<open>_optimize_aggregations\<close> is the stable sort, by the priority of the text
  before the first underscore (count 0, sum 1, avg 2, min 3, max 4, any other 5), of the
  list with its duplicates removed, first occurrences kept: the result is ordered by
  priority, and the names of one priority, those of an unknown prefix included, stand in
  the order of the deduplicated list; it has the names of the given list, each once. The
  optimise stage puts this list in place of the
  requested one. The list \<^verbatim>\<open>avg_cpu, count_pid, sum_mem\<close> becomes
  \<^verbatim>\<open>count_pid, sum_mem, avg_cpu\<close>.
\<close>

theorem optimize_aggregations_dedup_then_stable_sort:
  "optimize_aggregations aggs = sort_key aggregation_priority (keep_first_occurrences aggs)
   \<and> sorted (map aggregation_priority (optimize_aggregations aggs))
   \<and> (\<forall>p. filter (\<lambda>x. aggregation_priority x = p) (optimize_aggregations aggs)
          = filter (\<lambda>x. aggregation_priority x = p) (keep_first_occurrences aggs))
   \<and> set (optimize_aggregations aggs) = set aggs
   \<and> distinct (optimize_aggregations aggs)
   \<and> map_sum id q_aggregations (optimize_query now (q \<lparr>q_offset := Some off\<rparr>))
        = Inr (map_option optimize_aggregations (q_aggregations q))
   \<and> optimize_aggregations [''avg_cpu'', ''count_pid'', ''sum_mem'']
        = [''count_pid'', ''sum_mem'', ''avg_cpu'']"
proof -
  have key: "agg_key = aggregation_priority"
    by (rule ext) (rule agg_key_priority)
  have eq: "optimize_aggregations xs
      = sort_key aggregation_priority (keep_first_occurrences xs)" for xs
    by (simp add: optimize_aggregations_def key dict_fromkeys_keep_first)
  have "sorted (map aggregation_priority (optimize_aggregations aggs))"
    unfolding eq by (rule sorted_sort_key)
  moreover have "filter (\<lambda>x. aggregation_priority x = p) (optimize_aggregations aggs)
      = filter (\<lambda>x. aggregation_priority x = p) (keep_first_occurrences aggs)" for p
    unfolding eq by (rule sort_key_stable)
  moreover have "set (optimize_aggregations aggs) = set aggs"
    unfolding eq by (simp add: set_keep_first_occurrences)
  moreover have "distinct (optimize_aggregations aggs)"
    unfolding eq by (simp add: distinct_keep_first_occurrences)
  ultimately show ?thesis
    using eq[of aggs] optimize_query_Inr_aggregations[where now = now and q = q and off = off]
      optimize_aggregations_example
    by blast
qed

subsection \<open>Limit and offset\<close>

lemma optimize_query_offset_None:
  "q_offset q = None \<Longrightarrow> optimize_query now q = Inl TypeError"
  by (simp add: optimize_query_def Let_def)

lemma optimize_query_Inr:
  assumes "q_offset q = Some off"
  shows "optimize_query now q =
     Inr (query.extend
       (q \<lparr> q_start_time := Some
               (let start0 = (case q_start_time q of None \<Rightarrow> now - timedelta_days 30 | Some t \<Rightarrow> t);
                    end0 = (case q_end_time q of None \<Rightarrow> now | Some t \<Rightarrow> t);
                    start1 = (if start0 > end0 then end0 else start0);
                    end1 = (if start0 > end0 then start0 else end0)
                in if end1 - start1 > timedelta_days 365 then end1 - timedelta_days 365 else start1),
             q_end_time := Some
               (let start0 = (case q_start_time q of None \<Rightarrow> now - timedelta_days 30 | Some t \<Rightarrow> t);
                    end0 = (case q_end_time q of None \<Rightarrow> now | Some t \<Rightarrow> t)
                in if start0 > end0 then start0 else end0),
             q_limit := Some (min (case q_limit q of None \<Rightarrow> 100 | Some l \<Rightarrow> if l = 0 then 100 else l) 1000),
             q_offset := Some (max off 0),
             q_aggregations := map_option optimize_aggregations (q_aggregations q) \<rparr>)
       (optimized_query.fields (optimize_filters q)))"
proof -
  have oa: "optimize_aggregations [] = []"
    by (simp add: optimize_aggregations_def)
  have aggs: "(case q_aggregations q of None \<Rightarrow> None
        | Some a \<Rightarrow> if a = [] then Some a else Some (optimize_aggregations a))
      = map_option optimize_aggregations (q_aggregations q)"
    by (cases "q_aggregations q") (simp_all add: oa)
  show ?thesis
    using assms
    by (simp add: optimize_query_def Let_def aggs optimize_filters_def)
qed


text \<open>
  Claim C6 as stated fails: a negative limit is not raised to 1. The empty dictionary of
  parameters with \<^verbatim>\<open>limit = -5\<close> leaves the optimise stage with the limit -5.
\<close>

theorem optimize_negative_limit_counterexample:
  "map_sum id q_limit
     (optimize_query 0 (analyze_query (no_params \<lparr>p_limit := Some (Some (- 5))\<rparr>)))
   = Inr (Some (- 5))
   \<and> (- 5 :: int) < 1"
  by (simp add: optimize_query_def analyze_query_def no_params_def dict_get_def
      dict_get_default_def Let_def query.defs optimized_query.defs)


text \<open>
  Claim C6, amended. For every dictionary of query parameters whose offset is absent or
  a number (not \<^verbatim>\<open>None\<close>) the optimise stage returns, and in its result the limit is
  \<^verbatim>\<open>min(l, 1000)\<close>, where \<open>l\<close> is 100 for a limit that is absent, \<^verbatim>\<open>None\<close> or 0 and the
  given limit otherwise; so the limit is at most 1000, it is at least 1 when the given
  limit is not negative, and a negative limit is kept. The offset is
  \<^verbatim>\<open>max(offset, 0)\<close>, with 0 for an absent offset, which is never negative.
\<close>

theorem optimize_limit_offset:
  assumes "dict_get_default (p_offset params) 0 = Some off"
  shows "\<exists>q'. optimize_query now (analyze_query params) = Inr q'
     \<and> q_limit q' = Some (min (case p_limit params of
                                  None \<Rightarrow> 100
                                | Some None \<Rightarrow> 100
                                | Some (Some l) \<Rightarrow> if l = 0 then 100 else l) 1000)
     \<and> (\<exists>l. q_limit q' = Some l \<and> l \<le> 1000
            \<and> ((case p_limit params of Some (Some l0) \<Rightarrow> 0 \<le> l0 | _ \<Rightarrow> True)
                 \<longrightarrow> 1 \<le> l))
     \<and> q_offset q' = Some (max off 0)
     \<and> (\<exists>off'. q_offset q' = Some off' \<and> 0 \<le> off')"
proof -
  have off: "q_offset (analyze_query params) = Some off"
    using assms by (simp add: analyze_query_def)
  have lim: "q_limit (analyze_query params) = dict_get_default (p_limit params) 100"
    by (simp add: analyze_query_def)
  show ?thesis
    unfolding optimize_query_Inr[OF off] lim
    by (auto simp: query.defs optimized_query.defs dict_get_default_def
        split: option.splits)
qed

theorem optimize_limit_offset_witness:
  "\<exists>q'. optimize_query 0
           (analyze_query (no_params \<lparr>p_limit := Some (Some 5000),
                                      p_offset := Some (Some (- 5))\<rparr>)) = Inr q'
        \<and> q_limit q' = Some 1000 \<and> q_offset q' = Some 0"
proof -
  let ?p = "no_params \<lparr>p_limit := Some (Some 5000), p_offset := Some (Some (- 5))\<rparr>"
  have off: "dict_get_default (p_offset ?p) 0 = Some (- 5)"
    by (simp add: no_params_def dict_get_default_def)
  have lim: "p_limit ?p = Some (Some 5000)"
    by (simp add: no_params_def)
  from optimize_limit_offset[OF off, of 0] show ?thesis
    unfolding lim by auto
qed

subsection \<open>The time window\<close>

text \<open>
  For a query whose offset is not \<^verbatim>\<open>None\<close>, the optimise stage returns a window with
  start not after end and at most 365 days long: the end is the later of the two given
  times (a missing start is 30 days before now, a missing end is now), and the start is the
  earlier one, moved up to 365 days before the end when it lies further back.
\<close>

theorem optimize_time_window:
  assumes "q_offset q = Some off"
  shows "\<exists>q' s e. optimize_query now q = Inr q'
     \<and> q_start_time q' = Some s \<and> q_end_time q' = Some e
     \<and> s \<le> e \<and> e - s \<le> timedelta_days 365
     \<and> e = max (case q_start_time q of None \<Rightarrow> now - timedelta_days 30 | Some t \<Rightarrow> t)
               (case q_end_time q of None \<Rightarrow> now | Some t \<Rightarrow> t)
     \<and> s = max (min (case q_start_time q of None \<Rightarrow> now - timedelta_days 30 | Some t \<Rightarrow> t)
                    (case q_end_time q of None \<Rightarrow> now | Some t \<Rightarrow> t))
               (e - timedelta_days 365)"
  using assms
  by (auto simp: optimize_query_def Let_def query.defs optimized_query.defs timedelta_days_def
      split: option.splits)

theorem optimize_time_window_witness:
  "\<exists>q'. optimize_query 0
           (analyze_query (no_params \<lparr>p_start_time := Some (Some (jan_1_2024 + 5)),
                                      p_end_time := Some (Some jan_1_2024)\<rparr>)) = Inr q'
        \<and> q_start_time q' = Some jan_1_2024 \<and> q_end_time q' = Some (jan_1_2024 + 5)"
proof -
  let ?q = "analyze_query (no_params \<lparr>p_start_time := Some (Some (jan_1_2024 + 5)),
                                      p_end_time := Some (Some jan_1_2024)\<rparr>)"
  have off: "q_offset ?q = Some 0"
    by (simp add: analyze_query_def no_params_def dict_get_default_def)
  have t: "q_start_time ?q = Some (jan_1_2024 + 5)" "q_end_time ?q = Some jan_1_2024"
    by (simp_all add: analyze_query_def no_params_def dict_get_def)
  from optimize_time_window[OF off, of 0] show ?thesis
    unfolding t by (auto simp: timedelta_days_def)
qed

section \<open>The choice of the data source\<close>

text \<open>
  Claim C5. A query of type \<^verbatim>\<open>real_time\<close> is given the raw data store, and its execution
  raises \<^verbatim>\<open>NotImplementedError\<close>. Any other query is given the SQL store when it has no
  aggregations, the pre-aggregated store when all its aggregations are among
  \<^verbatim>\<open>total_cpu_usage\<close>, \<^verbatim>\<open>total_memory_usage\<close> and \<^verbatim>\<open>process_count\<close>, and the SQL store
  otherwise.
\<close>

theorem select_data_source_cases:
  fixes q :: optimized_query
  shows
  "(q_type q = Some ''real_time'' \<longrightarrow>
      select_data_source q = ''raw_data_store''
      \<and> execute_optimized_query engine redis_client db cache q (select_data_source q)
          = Inl NotImplementedError)
   \<and> (q_type q \<noteq> Some ''real_time'' \<longrightarrow>
        (q_aggregations q = None \<or> q_aggregations q = Some [] \<longrightarrow>
           select_data_source q = ''sql_store'')
        \<and> (\<forall>aggs. q_aggregations q = Some aggs \<and> aggs \<noteq> []
              \<and> set aggs \<subseteq> {''total_cpu_usage'', ''total_memory_usage'', ''process_count''}
              \<longrightarrow> select_data_source q = ''pre_aggregated_store'')
        \<and> (\<forall>aggs. q_aggregations q = Some aggs \<and> aggs \<noteq> []
              \<and> \<not> set aggs \<subseteq> {''total_cpu_usage'', ''total_memory_usage'', ''process_count''}
              \<longrightarrow> select_data_source q = ''sql_store''))"
  by (auto simp: select_data_source_def execute_optimized_query_def pre_aggregated_aggs_def
      list_all_iff)

theorem select_data_source_cases_witness:
  "select_data_source (planned_query ''real_time'' []) = ''raw_data_store''
   \<and> execute_optimized_query idle_engine Map.empty [] []
        (planned_query ''real_time'' []) (select_data_source (planned_query ''real_time'' []))
      = Inl NotImplementedError
   \<and> select_data_source (planned_query ''historical'' []) = ''sql_store''
   \<and> select_data_source (planned_query ''historical'' [''total_cpu_usage'', ''process_count''])
      = ''pre_aggregated_store''
   \<and> select_data_source (planned_query ''historical'' [''p95_cpu_usage'']) = ''sql_store''"
proof -
  let ?rt = "planned_query ''real_time'' []"
  have "q_type ?rt = Some ''real_time''"
    by (simp add: planned_query_def)
  with select_data_source_cases[of ?rt idle_engine Map.empty "[]" "[]"]
  have a: "select_data_source ?rt = ''raw_data_store''
      \<and> execute_optimized_query idle_engine Map.empty [] [] ?rt (select_data_source ?rt)
          = Inl NotImplementedError"
    by blast
  have h: "q_type (planned_query ''historical'' aggs) \<noteq> Some ''real_time''"
    "q_aggregations (planned_query ''historical'' aggs) = Some aggs" for aggs
    by (simp_all add: planned_query_def)
  from select_data_source_cases[of "planned_query ''historical'' []"] h[of "[]"]
  have b: "select_data_source (planned_query ''historical'' []) = ''sql_store''"
    by blast
  have "set [''total_cpu_usage'', ''process_count'']
      \<subseteq> {''total_cpu_usage'', ''total_memory_usage'', ''process_count''}"
    by simp
  with select_data_source_cases[of
      "planned_query ''historical'' [''total_cpu_usage'', ''process_count'']"]
    h[of "[''total_cpu_usage'', ''process_count'']"]
  have c: "select_data_source
      (planned_query ''historical'' [''total_cpu_usage'', ''process_count''])
      = ''pre_aggregated_store''"
    by blast
  have "\<not> set [''p95_cpu_usage'']
      \<subseteq> {''total_cpu_usage'', ''total_memory_usage'', ''process_count''}"
    by simp
  with select_data_source_cases[of "planned_query ''historical'' [''p95_cpu_usage'']"]
    h[of "[''p95_cpu_usage'']"]
  have d: "select_data_source (planned_query ''historical'' [''p95_cpu_usage''])
      = ''sql_store''"
    by blast
  from a b c d show ?thesis by blast
qed

section \<open>Execution on the SQL table\<close>

text \<open>
  Claim C8 does not hold of the code. \<^verbatim>\<open>_optimize_filters\<close> floors the threshold in the
  \<^verbatim>\<open>filters\<close> dictionary, but \<^verbatim>\<open>_execute_on_sql\<close> compares with the top-level value of
  the query, which is the one the caller sent. With the threshold -5 the table row of CPU
  usage 0 is returned, although the floored threshold in \<^verbatim>\<open>filters\<close> is 0 and the row is
  not above it.
\<close>

theorem negative_threshold_not_floored:
  "execute_query engine Map.empty [idle_row] [] (jan_1_2024 + 86400000000)
     (no_params \<lparr>p_cpu_usage_gt := Some (Some (- 5))\<rparr>)
     = Inr ((1, [RecordRow idle_row]), [])
   \<and> map_sum id (\<lambda>q. f_cpu_usage_gt (q_filters q))
        (optimize_query (jan_1_2024 + 86400000000)
           (analyze_query (no_params \<lparr>p_cpu_usage_gt := Some (Some (- 5))\<rparr>)))
     = Inr (Some 0)
   \<and> \<not> c_cpu_usage idle_row > max 0 (- 5)"
  by (simp add: execute_query_def optimize_query_def analyze_query_def no_params_def
      dict_get_def dict_get_default_def Let_def query.defs optimized_query.defs
      select_data_source_def execute_optimized_query_def execute_on_sql_def
      sql_filter_def limit_offset_def idle_row_def timedelta_days_def optimize_filters_def
      jan_1_2024_def)

section \<open>Execution on the aggregates\<close>

lemma date_isoformat_jan_1_2024: "date_isoformat 738886 = ''2024-01-01''"
  by code_simp

text \<open>
  Claim C7 does not hold of the code. The value of the \<^verbatim>\<open>os_type\<close> filter is a string,
  and the loop \<^verbatim>\<open>for os_type in filters.get('os_type', [...])\<close> runs over its characters.
  With the filter \<^verbatim>\<open>linux\<close> and the day 2024-01-01 the keys looked up are
  \<^verbatim>\<open>2024-01-01_l\<close>, \<^verbatim>\<open>_i\<close>, \<^verbatim>\<open>_n\<close>, \<^verbatim>\<open>_u\<close> and \<^verbatim>\<open>_x\<close>; the rollup stored under
  \<^verbatim>\<open>agg_2024-01-01_linux\<close> is not returned. The same query without the filter looks up the
  three tags and returns it.
\<close>

theorem os_type_filter_iterates_characters:
  "execute_query engine
     [''agg_2024-01-01_linux'' \<mapsto> Aggregated linux_rollup] [] [] (jan_1_2024 + 86400000000)
     (no_params \<lparr> p_start_time := Some (Some jan_1_2024),
                  p_end_time := Some (Some (jan_1_2024 + 3600000000)),
                  p_os_type := Some (Some ''linux''),
                  p_aggregations := Some (Some [''process_count'']) \<rparr>)
     = Inr ((0, []),
            [(''2024-01-01_x'', None), (''2024-01-01_u'', None), (''2024-01-01_n'', None),
             (''2024-01-01_i'', None), (''2024-01-01_l'', None)])
   \<and> execute_query engine
     [''agg_2024-01-01_linux'' \<mapsto> Aggregated linux_rollup] [] [] (jan_1_2024 + 86400000000)
     (no_params \<lparr> p_start_time := Some (Some jan_1_2024),
                  p_end_time := Some (Some (jan_1_2024 + 3600000000)),
                  p_aggregations := Some (Some [''process_count'']) \<rparr>)
     = Inr ((1, [StoredRow (Aggregated linux_rollup)]),
            [(''2024-01-01_mac'', None),
             (''2024-01-01_linux'', Some (Aggregated linux_rollup)),
             (''2024-01-01_windows'', None)])"
  by (simp add: execute_query_def optimize_query_def analyze_query_def no_params_def
      dict_get_def dict_get_default_def Let_def query.defs optimized_query.defs
      select_data_source_def execute_optimized_query_def execute_on_pre_aggregated_def
      timedelta_days_def optimize_filters_def optimize_aggregations_def agg_key_def
      priority_order_def pre_aggregated_aggs_def date_of_def date_loop.simps
      os_type_iteration_def date_isoformat_jan_1_2024 get_aggregated_data_def
      fetch_aggregated_data_def maxsize_def jan_1_2024_def)

subsection \<open>The cache of \<^verbatim>\<open>_get_aggregated_data\<close>\<close>

lemma get_hit:
  "map_of c k = Some v \<Longrightarrow>
   get_aggregated_data r c k = (v, (k, v) # filter (\<lambda>e. fst e \<noteq> k) c)"
  by (simp add: get_aggregated_data_def)

lemma get_miss:
  "map_of c k = None \<Longrightarrow>
   get_aggregated_data r c k =
     (fetch_aggregated_data r k, take maxsize ((k, fetch_aggregated_data r k) # c))"
  by (simp add: get_aggregated_data_def Let_def)

lemma distinct_get:
  assumes "distinct (map fst c)"
  shows "distinct (map fst (snd (get_aggregated_data r c k)))"
proof (cases "map_of c k")
  case None
  then have "k \<notin> fst ` set c" by (simp add: map_of_eq_None_iff)
  with assms have "distinct (map fst ((k, fetch_aggregated_data r k) # c))" by simp
  then have "distinct (take maxsize (map fst ((k, fetch_aggregated_data r k) # c)))"
    by (rule distinct_take)
  then have "distinct (map fst (take maxsize ((k, fetch_aggregated_data r k) # c)))"
    by (simp only: take_map)
  then show ?thesis by (simp only: get_miss[OF None] snd_conv)
next
  case (Some v)
  from assms have "distinct (map fst (filter (\<lambda>e. fst e \<noteq> k) c))"
    by (rule distinct_map_filter)
  then show ?thesis by (auto simp: get_hit[OF Some])
qed

lemma length_get:
  assumes "length c \<le> maxsize"
  shows "length (snd (get_aggregated_data r c k)) \<le> maxsize"
proof (cases "map_of c k")
  case None
  then show ?thesis by (simp add: get_miss del: take_Suc_Cons)
next
  case (Some v)
  then have "(k, v) \<in> set c" by (rule map_of_SomeD)
  then have "length (filter (\<lambda>e. fst e \<noteq> k) c) < length c"
    by (intro length_filter_less[of "(k, v)"]) auto
  with assms show ?thesis by (simp add: get_hit[OF Some])
qed

lemma distinct_lookups:
  "distinct (map fst c) \<Longrightarrow> distinct (map fst (lookups c ops))"
  by (induction ops arbitrary: c) (auto simp: distinct_get)

lemma length_lookups:
  "length c \<le> maxsize \<Longrightarrow> length (lookups c ops) \<le> maxsize"
  by (induction ops arbitrary: c) (auto simp: length_get)

lemma held_map_of: "held c k v T \<Longrightarrow> map_of c k = Some v"
  unfolding held_def by (auto intro!: map_of_is_SomeI)

lemma held_after_first:
  assumes "distinct (map fst c)"
  shows "held (snd (get_aggregated_data r c k)) k (fst (get_aggregated_data r c k)) T"
proof (cases "map_of c k")
  case None
  have "0 < maxsize" by (simp add: maxsize_def)
  then obtain m where m: "maxsize = Suc m" by (cases maxsize) auto
  have "snd (get_aggregated_data r c k) = [] @ (k, fetch_aggregated_data r k) # take m c"
    by (simp add: get_miss[OF None] m)
  moreover have "fst (get_aggregated_data r c k) = fetch_aggregated_data r k"
    by (simp add: get_miss[OF None])
  ultimately show ?thesis
    unfolding held_def using distinct_get[OF assms, of r k] by (metis empty_subsetI image_empty list.set(1))
next
  case (Some v)
  have "snd (get_aggregated_data r c k) = [] @ (k, v) # filter (\<lambda>e. fst e \<noteq> k) c"
    by (simp add: get_hit[OF Some])
  moreover have "fst (get_aggregated_data r c k) = v"
    by (simp add: get_hit[OF Some])
  ultimately show ?thesis
    unfolding held_def using distinct_get[OF assms, of r k] by (metis empty_subsetI image_empty list.set(1))
qed

lemma held_step:
  assumes h: "held c k v T" and fin: "finite T" and card: "card T < maxsize"
    and x: "x \<in> insert k T"
  shows "held (snd (get_aggregated_data r c x)) k v T"
proof -
  from h obtain pre post where c: "c = pre @ (k, v) # post" and pre: "fst ` set pre \<subseteq> T"
    and d: "distinct (map fst c)"
    unfolding held_def by blast
  have d': "distinct (map fst (snd (get_aggregated_data r c x)))"
    using d by (rule distinct_get)
  show ?thesis
  proof (cases "x = k")
    case True
    have "map_of c k = Some v" using h by (rule held_map_of)
    then have "snd (get_aggregated_data r c x) = [] @ (k, v) # filter (\<lambda>e. fst e \<noteq> k) c"
      using True by (simp add: get_hit)
    with d' show ?thesis unfolding held_def by (metis empty_subsetI image_empty list.set(1))
  next
    case False
    with x have xT: "x \<in> T" by simp
    show ?thesis
    proof (cases "map_of c x")
      case (Some w)
      have "snd (get_aggregated_data r c x) = (x, w) # filter (\<lambda>e. fst e \<noteq> x) c"
        by (simp add: get_hit[OF Some])
      also have "filter (\<lambda>e. fst e \<noteq> x) c
            = filter (\<lambda>e. fst e \<noteq> x) pre @ (k, v) # filter (\<lambda>e. fst e \<noteq> x) post"
        using False by (simp add: c)
      finally have "snd (get_aggregated_data r c x)
            = ((x, w) # filter (\<lambda>e. fst e \<noteq> x) pre) @ (k, v) # filter (\<lambda>e. fst e \<noteq> x) post"
        by simp
      moreover have "fst ` set ((x, w) # filter (\<lambda>e. fst e \<noteq> x) pre) \<subseteq> T"
        using pre xT by auto
      ultimately show ?thesis using d' unfolding held_def by blast
    next
      case None
      then have xc: "x \<notin> fst ` set c" by (simp add: map_of_eq_None_iff)
      then have "fst ` set pre \<subseteq> T - {x}" using pre c by auto
      then have "card (fst ` set pre) \<le> card (T - {x})"
        using fin by (intro card_mono) auto
      moreover have "card (fst ` set pre) = length pre"
      proof -
        from d c have "distinct (map fst pre)" by simp
        then have "card (set (map fst pre)) = length (map fst pre)" by (rule distinct_card)
        then show ?thesis by simp
      qed
      moreover have "card (T - {x}) < card T"
        using fin xT by (intro card_Diff1_less)
      ultimately have len: "length pre + 2 \<le> maxsize" using card by linarith
      let ?w = "fetch_aggregated_data r x"
      have "take maxsize ((x, ?w) # pre @ (k, v) # post)
            = ((x, ?w) # pre) @ (k, v) # take (maxsize - (length pre + 2)) post"
        using len by (cases maxsize) (auto simp: take_Cons' )
      moreover have "snd (get_aggregated_data r c x) = take maxsize ((x, ?w) # c)"
        by (simp only: get_miss[OF None] snd_conv)
      ultimately have "snd (get_aggregated_data r c x)
            = ((x, ?w) # pre) @ (k, v) # take (maxsize - (length pre + 2)) post"
        by (simp only: c)
      moreover have "fst ` set ((x, ?w) # pre) \<subseteq> T" using pre xT by auto
      ultimately show ?thesis using d' unfolding held_def by blast
    qed
  qed
qed

lemma held_lookups:
  assumes "held c k v T" "finite T" "card T < maxsize" "snd ` set ops \<subseteq> insert k T"
  shows "held (lookups c ops) k v T"
  using assms
proof (induction ops arbitrary: c)
  case Nil
  then show ?case by simp
next
  case (Cons op ops)
  obtain r x where op: "op = (r, x)" by (cases op)
  from Cons.prems have "x \<in> insert k T" by (simp add: op)
  with Cons.prems have "held (snd (get_aggregated_data r c x)) k v T"
    by (intro held_step)
  with Cons show ?case by (simp add: op)
qed


lemma takeWhile_filter_other:
  "k \<noteq> x \<Longrightarrow>
   takeWhile (\<lambda>y. y \<noteq> k) (filter (\<lambda>y. y \<noteq> x) ks)
     = filter (\<lambda>y. y \<noteq> x) (takeWhile (\<lambda>y. y \<noteq> k) ks)"
  by (induction ks) auto

lemma takeWhile_take_member:
  "k \<in> set (take n ks) \<Longrightarrow>
   takeWhile (\<lambda>y. y \<noteq> k) (take n ks) = takeWhile (\<lambda>y. y \<noteq> k) ks"
proof (induction ks arbitrary: n)
  case Nil
  then show ?case by simp
next
  case (Cons a ks)
  then show ?case by (cases n) auto
qed

lemma keys_get_hit:
  assumes "map_of c x = Some w"
  shows "map fst (snd (get_aggregated_data r c x)) = x # filter (\<lambda>y. y \<noteq> x) (map fst c)"
  by (simp add: get_hit[OF assms] filter_map comp_def)

lemma keys_get_miss:
  assumes "map_of c x = None"
  shows "map fst (snd (get_aggregated_data r c x)) = take maxsize (x # map fst c)"
  by (simp only: get_miss[OF assms] snd_conv take_map[symmetric] list.map fst_conv)

lemma ahead_step:
  assumes a: "ahead c k S" and xk: "x \<noteq> k"
  shows "ahead (snd (get_aggregated_data r c x)) k (insert x S)"
proof -
  let ?c' = "snd (get_aggregated_data r c x)"
  from a have d: "distinct (map fst c)" and l: "length c \<le> maxsize"
    and S: "k \<in> fst ` set c \<Longrightarrow> set (takeWhile (\<lambda>y. y \<noteq> k) (map fst c)) = S"
    unfolding ahead_def by auto
  have d': "distinct (map fst ?c')" using d by (rule distinct_get)
  have l': "length ?c' \<le> maxsize" using l by (rule length_get)
  have "set (takeWhile (\<lambda>y. y \<noteq> k) (map fst ?c')) = insert x S" if k: "k \<in> set (map fst ?c')"
  proof (cases "map_of c x")
    case (Some w)
    from k xk have kc: "k \<in> fst ` set c" by (auto simp: keys_get_hit[OF Some])
    have "takeWhile (\<lambda>y. y \<noteq> k) (map fst ?c')
          = x # filter (\<lambda>y. y \<noteq> x) (takeWhile (\<lambda>y. y \<noteq> k) (map fst c))"
      using xk by (simp add: keys_get_hit[OF Some] takeWhile_filter_other)
    then show ?thesis using S[OF kc] by auto
  next
    case None
    from k have k': "k \<in> set (take maxsize (x # map fst c))"
      by (simp only: keys_get_miss[OF None])
    then have "k \<in> set (x # map fst c)" by (rule in_set_takeD)
    with xk have kc: "k \<in> fst ` set c" by simp
    have "takeWhile (\<lambda>y. y \<noteq> k) (map fst ?c') = takeWhile (\<lambda>y. y \<noteq> k) (x # map fst c)"
      unfolding keys_get_miss[OF None] using k' by (rule takeWhile_take_member)
    then show ?thesis using S[OF kc] xk by simp
  qed
  with d' l' show ?thesis unfolding ahead_def by simp
qed

lemma ahead_lookups:
  assumes "ahead c k S" "k \<notin> snd ` set ops"
  shows "ahead (lookups c ops) k (S \<union> snd ` set ops)"
  using assms
proof (induction ops arbitrary: c S)
  case Nil
  then show ?case by simp
next
  case (Cons op ops)
  obtain r x where op: "op = (r, x)" by (cases op)
  from Cons.prems have xk: "x \<noteq> k" by (auto simp: op)
  with Cons.prems have "ahead (snd (get_aggregated_data r c x)) k (insert x S)"
    by (intro ahead_step)
  moreover from Cons.prems have "k \<notin> snd ` set ops" by simp
  ultimately have "ahead (lookups (snd (get_aggregated_data r c x)) ops) k
      (insert x S \<union> snd ` set ops)"
    by (rule Cons.IH)
  then show ?case by (simp add: op)
qed

lemma ahead_evicted:
  assumes a: "ahead c k S" and big: "maxsize \<le> card S"
  shows "map_of c k = None"
proof (rule ccontr)
  assume "map_of c k \<noteq> None"
  then have kc: "k \<in> fst ` set c" by (simp add: map_of_eq_None_iff)
  with a have S: "set (takeWhile (\<lambda>y. y \<noteq> k) (map fst c)) = S"
    and d: "distinct (map fst c)" and l: "length c \<le> maxsize"
    unfolding ahead_def by auto
  have "distinct (takeWhile (\<lambda>y. y \<noteq> k) (map fst c))"
    using d by (rule distinct_takeWhile)
  then have "card S = length (takeWhile (\<lambda>y. y \<noteq> k) (map fst c))"
    unfolding S[symmetric] by (rule distinct_card)
  moreover have "length (takeWhile (\<lambda>y. y \<noteq> k) (map fst c)) < length (map fst c)"
  proof -
    have "length (takeWhile (\<lambda>y. y \<noteq> k) ks) < length ks" if "k \<in> set ks" for ks
      using that by (induction ks) auto
    from this[of "map fst c"] kc show ?thesis by simp
  qed
  ultimately show False using big l by simp
qed

lemma ahead_after_first:
  assumes "distinct (map fst c)" "length c \<le> maxsize"
  shows "ahead (snd (get_aggregated_data r c k)) k {}"
proof -
  have "\<exists>rest. map fst (snd (get_aggregated_data r c k)) = k # rest"
  proof (cases "map_of c k")
    case None
    have "0 < maxsize" by (simp add: maxsize_def)
    then obtain m where m: "maxsize = Suc m" by (cases maxsize) auto
    show ?thesis by (simp add: keys_get_miss[OF None] m)
  next
    case (Some v)
    then show ?thesis by (simp add: keys_get_hit[OF Some])
  qed
  then obtain rest where "map fst (snd (get_aggregated_data r c k)) = k # rest" ..
  then have "takeWhile (\<lambda>y. y \<noteq> k) (map fst (snd (get_aggregated_data r c k))) = []"
    by simp
  with distinct_get[OF assms(1), of r k] length_get[OF assms(2), of r k]
  show ?thesis unfolding ahead_def by simp
qed


lemma lookups_append: "lookups c (a @ b) = lookups (lookups c a) b"
  by (induction a arbitrary: c) auto

lemma returned_append: "returned c (a @ b) = returned c a @ returned (lookups c a) b"
  by (induction a arbitrary: c) auto

lemma present_append: "present (a @ b) = present a @ present b"
  by (induction a rule: present.induct) auto

lemma os_type_loop_lookups:
  "os_type_loop r d os (res, c)
     = (res @ present (returned c (map (\<lambda>t. (r, d @ ''_'' @ t)) os)),
        lookups c (map (\<lambda>t. (r, d @ ''_'' @ t)) os))"
proof (induction os arbitrary: res c)
  case Nil
  then show ?case by simp
next
  case (Cons t os)
  obtain v c' where g: "get_aggregated_data r c (d @ ''_'' @ t) = (v, c')"
    by (cases "get_aggregated_data r c (d @ ''_'' @ t)")
  show ?case
    using g Cons.IH by (cases v) simp_all
qed

lemma partition_keys_rec:
  "partition_keys os d1 d2 =
     (if d1 \<le> d2
      then map (\<lambda>t. date_isoformat d1 @ ''_'' @ t) os @ partition_keys os (d1 + 1) d2
      else [])"
  by (simp add: partition_keys_def upto_rec1)

lemma date_loop_lookups:
  "date_loop r os d1 d2 (res, c)
     = (res @ present (returned c (map (Pair r) (partition_keys os d1 d2))),
        lookups c (map (Pair r) (partition_keys os d1 d2)))"
proof (induction r os d1 d2 "(res, c)" arbitrary: res c rule: date_loop.induct)
  case (1 r os d1 d2)
  show ?case
  proof (cases "d1 \<le> d2")
    case False
    then show ?thesis
      by (subst date_loop.simps, subst (1 2) partition_keys_rec) simp
  next
    case True
    let ?ops = "map (\<lambda>t. (r, date_isoformat d1 @ ''_'' @ t)) os"
    have ops: "map (Pair r) (map (\<lambda>t. date_isoformat d1 @ ''_'' @ t) os) = ?ops"
      by simp
    have step: "os_type_loop r (date_isoformat d1) os (res, c)
        = (res @ present (returned c ?ops), lookups c ?ops)"
      by (rule os_type_loop_lookups)
    have "date_loop r os d1 d2 (res, c)
        = date_loop r os (d1 + 1) d2 (res @ present (returned c ?ops), lookups c ?ops)"
      using True by (subst date_loop.simps) (simp add: step)
    also have "\<dots> = ((res @ present (returned c ?ops))
          @ present (returned (lookups c ?ops) (map (Pair r) (partition_keys os (d1 + 1) d2))),
        lookups (lookups c ?ops) (map (Pair r) (partition_keys os (d1 + 1) d2)))"
      using True step by (intro "1.hyps") simp_all
    also have "\<dots> = (res @ present (returned c (map (Pair r) (partition_keys os d1 d2))),
        lookups c (map (Pair r) (partition_keys os d1 d2)))"
      using True
      by (subst (3 4) partition_keys_rec)
        (simp add: returned_append lookups_append present_append comp_def)
    finally show ?thesis .
  qed
qed

lemma fresh_get:
  assumes "fresh r c"
  shows "fst (get_aggregated_data r c k) = fetch_aggregated_data r k
     \<and> fresh r (snd (get_aggregated_data r c k))"
proof (cases "map_of c k")
  case None
  have "list_all P (take n xs)" if "list_all P xs" for P n and xs :: lru
    using that by (auto simp: list_all_iff dest: in_set_takeD)
  with assms show ?thesis
    unfolding fresh_def
    by (simp add: get_aggregated_data_def None Let_def del: take_Suc_Cons)
next
  case (Some v)
  then have "(k, v) \<in> set c" by (rule map_of_SomeD)
  with assms have "v = fetch_aggregated_data r k"
    by (auto simp: fresh_def list_all_iff)
  with assms show ?thesis
    by (auto simp: fresh_def get_aggregated_data_def Some list_all_iff)
qed

lemma fresh_returned:
  "fresh r c \<Longrightarrow> returned c (map (Pair r) ks) = map (fetch_aggregated_data r) ks"
  by (induction ks arbitrary: c) (simp_all add: fresh_get)

subsection \<open>A query run twice\<close>

lemma stick_core:
  assumes d: "distinct (map fst c)" and fin: "finite T" and small: "card T < maxsize"
    and keys: "snd ` set ops \<subseteq> insert k T"
  shows "fst (get_aggregated_data r' (lookups (snd (get_aggregated_data r c k)) ops) k)
     = fst (get_aggregated_data r c k)"
proof -
  let ?c1 = "snd (get_aggregated_data r c k)"
  let ?v = "fst (get_aggregated_data r c k)"
  have "held ?c1 k ?v T" using d by (rule held_after_first)
  then have "held (lookups ?c1 ops) k ?v T"
    using fin small keys by (rule held_lookups)
  then have "map_of (lookups ?c1 ops) k = Some ?v" by (rule held_map_of)
  then show ?thesis by (simp add: get_hit)
qed

lemma evict_core:
  assumes d: "distinct (map fst c)" and l: "length c \<le> maxsize"
    and nk: "k \<notin> snd ` set ops" and big: "maxsize \<le> card (snd ` set ops)"
  shows "fst (get_aggregated_data r' (lookups (snd (get_aggregated_data r c k)) ops) k)
     = fetch_aggregated_data r' k"
proof -
  let ?c1 = "snd (get_aggregated_data r c k)"
  have "ahead ?c1 k {}" using d l by (rule ahead_after_first)
  then have "ahead (lookups ?c1 ops) k ({} \<union> snd ` set ops)"
    using nk by (rule ahead_lookups)
  then have "map_of (lookups ?c1 ops) k = None"
    using big by (intro ahead_evicted[where S = "snd ` set ops"]) simp_all
  then show ?thesis by (simp add: get_miss)
qed

lemma length_returned: "length (returned c ops) = length ops"
  by (induction ops arbitrary: c) auto

lemma returned_nth:
  "i < length ops \<Longrightarrow>
   returned c ops ! i
     = fst (get_aggregated_data (fst (ops ! i)) (lookups c (take i ops)) (snd (ops ! i)))"
proof (induction ops arbitrary: c i)
  case Nil
  then show ?case by simp
next
  case (Cons op ops)
  obtain r x where op: "op = (r, x)" by (cases op)
  show ?case
  proof (cases i)
    case 0
    then show ?thesis by (simp add: op)
  next
    case (Suc j)
    with Cons.prems have "j < length ops" by simp
    from Cons.IH[OF this] show ?thesis by (simp add: op Suc)
  qed
qed

lemma lookups_split:
  assumes "i < length ops"
  shows "lookups c ops
     = lookups (snd (get_aggregated_data (fst (ops ! i)) (lookups c (take i ops))
                       (snd (ops ! i))))
         (drop (Suc i) ops)"
proof -
  have "ops = take i ops @ ops ! i # drop (Suc i) ops"
    using assms by (rule id_take_nth_drop)
  then have "lookups c ops = lookups c (take i ops @ ops ! i # drop (Suc i) ops)"
    by simp
  also have "\<dots> = lookups (lookups c (take i ops)) (ops ! i # drop (Suc i) ops)"
    by (rule lookups_append)
  also have "\<dots> = lookups (snd (get_aggregated_data (fst (ops ! i)) (lookups c (take i ops))
                       (snd (ops ! i)))) (drop (Suc i) ops)"
    by (cases "ops ! i") simp
  finally show ?thesis .
qed

lemma returned_again_at:
  assumes i: "i < length ks"
  shows "returned (lookups (lookups c (map (Pair r1) ks)) mid) (map (Pair r2) ks) ! i
     = fst (get_aggregated_data r2
         (lookups (snd (get_aggregated_data r1 (lookups c (take i (map (Pair r1) ks))) (ks ! i)))
            (drop (Suc i) (map (Pair r1) ks) @ mid @ take i (map (Pair r2) ks)))
         (ks ! i))"
proof -
  let ?ops1 = "map (Pair r1) ks" and ?ops2 = "map (Pair r2) ks"
  have "lookups c ?ops1
      = lookups (snd (get_aggregated_data r1 (lookups c (take i ?ops1)) (ks ! i)))
          (drop (Suc i) ?ops1)"
    using lookups_split[of i ?ops1 c] i by simp
  then have "lookups (lookups (lookups c ?ops1) mid) (take i ?ops2)
      = lookups (snd (get_aggregated_data r1 (lookups c (take i ?ops1)) (ks ! i)))
          (drop (Suc i) ?ops1 @ mid @ take i ?ops2)"
    by (simp add: lookups_append)
  then show ?thesis
    using returned_nth[of i ?ops2 "lookups (lookups c ?ops1) mid"] i by simp
qed

lemma returned_repeat:
  assumes d: "distinct (map fst c)"
    and small: "card (set ks \<union> snd ` set mid) \<le> maxsize"
  shows "returned (lookups (lookups c (map (Pair r1) ks)) mid) (map (Pair r2) ks)
     = returned c (map (Pair r1) ks)"
proof (rule nth_equalityI)
  show "length (returned (lookups (lookups c (map (Pair r1) ks)) mid) (map (Pair r2) ks))
      = length (returned c (map (Pair r1) ks))"
    by (simp add: length_returned)
next
  fix i
  assume "i < length (returned (lookups (lookups c (map (Pair r1) ks)) mid) (map (Pair r2) ks))"
  then have i: "i < length ks" by (simp add: length_returned)
  let ?K = "set ks \<union> snd ` set mid"
  let ?ops1 = "map (Pair r1) ks" and ?ops2 = "map (Pair r2) ks"
  let ?ci = "lookups c (take i ?ops1)"
  have fin: "finite (?K - {ks ! i})" by simp
  have "ks ! i \<in> ?K" using i by simp
  then have "card (?K - {ks ! i}) < card ?K"
    by (intro card_Diff1_less) simp_all
  with small have card: "card (?K - {ks ! i}) < maxsize" by simp
  have "snd ` set (drop (Suc i) ?ops1 @ mid @ take i ?ops2) \<subseteq> ?K"
    by (auto dest: in_set_dropD in_set_takeD)
  then have keys: "snd ` set (drop (Suc i) ?ops1 @ mid @ take i ?ops2)
      \<subseteq> insert (ks ! i) (?K - {ks ! i})"
    by blast
  have di: "distinct (map fst ?ci)" using d by (rule distinct_lookups)
  have "returned (lookups (lookups c ?ops1) mid) ?ops2 ! i
      = fst (get_aggregated_data r1 ?ci (ks ! i))"
    unfolding returned_again_at[OF i]
    using di fin card keys by (rule stick_core)
  also have "\<dots> = returned c ?ops1 ! i"
    using returned_nth[of i ?ops1 c] i by simp
  finally show "returned (lookups (lookups c ?ops1) mid) ?ops2 ! i = returned c ?ops1 ! i" .
qed

lemma returned_evicted:
  assumes d: "distinct (map fst c)" and l: "length c \<le> maxsize"
    and dk: "distinct ks" and disj: "set ks \<inter> snd ` set mid = {}"
    and big: "maxsize \<le> card (snd ` set mid)"
  shows "returned (lookups (lookups c (map (Pair r1) ks)) mid) (map (Pair r2) ks)
     = map (fetch_aggregated_data r2) ks"
proof (rule nth_equalityI)
  show "length (returned (lookups (lookups c (map (Pair r1) ks)) mid) (map (Pair r2) ks))
      = length (map (fetch_aggregated_data r2) ks)"
    by (simp add: length_returned)
next
  fix i
  assume "i < length (returned (lookups (lookups c (map (Pair r1) ks)) mid) (map (Pair r2) ks))"
  then have i: "i < length ks" by (simp add: length_returned)
  let ?ops1 = "map (Pair r1) ks" and ?ops2 = "map (Pair r2) ks"
  let ?ci = "lookups c (take i ?ops1)"
  let ?between = "drop (Suc i) ?ops1 @ mid @ take i ?ops2"
  have split: "ks = take i ks @ ks ! i # drop (Suc i) ks"
    using i by (rule id_take_nth_drop)
  have "distinct (take i ks @ ks ! i # drop (Suc i) ks)"
    using dk split by simp
  then have out: "ks ! i \<notin> set (take i ks)" "ks ! i \<notin> set (drop (Suc i) ks)"
    by auto
  have keys: "snd ` set ?between = set (drop (Suc i) ks) \<union> snd ` set mid \<union> set (take i ks)"
    by (auto simp: image_Un image_image drop_map take_map)
  have "ks ! i \<in> set ks" using i by simp
  then have "ks ! i \<notin> snd ` set mid" using disj by blast
  with out have nk: "ks ! i \<notin> snd ` set ?between"
    unfolding keys by blast
  have "card (snd ` set mid) \<le> card (snd ` set ?between)"
    unfolding keys by (intro card_mono) auto
  with big have big': "maxsize \<le> card (snd ` set ?between)" by simp
  have di: "distinct (map fst ?ci)" using d by (rule distinct_lookups)
  have li: "length ?ci \<le> maxsize" using l by (rule length_lookups)
  have "returned (lookups (lookups c ?ops1) mid) ?ops2 ! i
      = fetch_aggregated_data r2 (ks ! i)"
    unfolding returned_again_at[OF i]
    using di li nk big' by (rule evict_core)
  then show "returned (lookups (lookups c ?ops1) mid) ?ops2 ! i
      = map (fetch_aggregated_data r2) ks ! i"
    using i by simp
qed

lemma execute_on_pre_aggregated_lookups:
  assumes "q_start_time q = Some s" and "q_end_time q = Some e"
  shows "execute_on_pre_aggregated r c q
     = Inr (present (returned c (map (Pair r)
              (partition_keys (os_type_iteration (q_filters q)) (date_of s) (date_of e)))),
            lookups c (map (Pair r)
              (partition_keys (os_type_iteration (q_filters q)) (date_of s) (date_of e))))"
  using assms by (simp add: execute_on_pre_aggregated_def date_loop_lookups)

text \<open>
  Claim C10. The cache holds 128 entries. Take any state of the cache the process can
  reach, and a lookup of the key \<open>k\<close> in it. Whatever Redis holds later, a later lookup of
  \<open>k\<close> returns what that lookup returned, the empty result included, as long as fewer than
  128 distinct other keys were looked up in between. Once 128 or more distinct other keys
  were looked up since, and \<open>k\<close> was not, the entry is gone and the lookup reads Redis
  again. A lookup of a key that is not in the cache returns what Redis holds.

  A query on the aggregates is a run of such lookups, one for each of its partition keys
  in the order of its loops. With a start and an end time it returns the values these
  lookups return, the empty ones left out, and leaves the cache these lookups leave; from
  an empty cache the rows are what Redis holds. When the same query runs again, after any
  lookups such that its keys and the keys looked up in between are at most 128, it returns
  the rows of its first run, whatever Redis holds by then. When its keys are distinct and
  128 or more distinct other keys were looked up in between, it returns what Redis holds
  at its second run.
\<close>

theorem lru_cached_value_until_evicted:
  "(card (snd ` set ops - {k}) < maxsize \<longrightarrow>
      fst (get_aggregated_data redis_later
             (lookups (snd (get_aggregated_data redis_first (lookups [] history) k)) ops) k)
        = fst (get_aggregated_data redis_first (lookups [] history) k))
   \<and> (k \<notin> snd ` set ops \<and> maxsize \<le> card (snd ` set ops) \<longrightarrow>
      fst (get_aggregated_data redis_later
             (lookups (snd (get_aggregated_data redis_first (lookups [] history) k)) ops) k)
        = fetch_aggregated_data redis_later k)
   \<and> (map_of (lookups [] history) k = None \<longrightarrow>
        fst (get_aggregated_data redis_first (lookups [] history) k)
          = fetch_aggregated_data redis_first k)
   \<and> date_loop redis_client os_types start_date end_date (results, cache)
        = (results @ present (returned cache
             (map (Pair redis_client) (partition_keys os_types start_date end_date))),
           lookups cache
             (map (Pair redis_client) (partition_keys os_types start_date end_date)))
   \<and> (q_start_time q = Some start_time \<and> q_end_time q = Some end_time \<longrightarrow>
        (let ks = partition_keys (os_type_iteration (q_filters q))
                    (date_of start_time) (date_of end_time);
             cache0 = lookups [] history;
             rows = present (returned cache0 (map (Pair redis_first) ks));
             cache1 = lookups cache0 (map (Pair redis_first) ks)
         in execute_on_pre_aggregated redis_first cache0 q = Inr (rows, cache1)
            \<and> execute_on_pre_aggregated redis_first [] q
                = Inr (present (map (fetch_aggregated_data redis_first) ks),
                       lookups [] (map (Pair redis_first) ks))
            \<and> (card (set ks \<union> snd ` set ops) \<le> maxsize \<longrightarrow>
                  execute_on_pre_aggregated redis_later (lookups cache1 ops) q
                    = Inr (rows, lookups (lookups cache1 ops) (map (Pair redis_later) ks)))
            \<and> (distinct ks \<and> set ks \<inter> snd ` set ops = {}
                  \<and> maxsize \<le> card (snd ` set ops) \<longrightarrow>
                  execute_on_pre_aggregated redis_later (lookups cache1 ops) q
                    = Inr (present (map (fetch_aggregated_data redis_later) ks),
                           lookups (lookups cache1 ops) (map (Pair redis_later) ks)))))
   \<and> maxsize = 128"
proof -
  let ?c0 = "lookups [] history"
  have d0: "distinct (map fst ?c0)" by (rule distinct_lookups) simp
  have l0: "length ?c0 \<le> maxsize" by (rule length_lookups) simp
  have stick: "fst (get_aggregated_data redis_later
        (lookups (snd (get_aggregated_data redis_first ?c0 k)) ops) k)
      = fst (get_aggregated_data redis_first ?c0 k)"
    if small: "card (snd ` set ops - {k}) < maxsize"
    using d0 _ small by (rule stick_core) auto
  have evict: "fst (get_aggregated_data redis_later
        (lookups (snd (get_aggregated_data redis_first ?c0 k)) ops) k)
      = fetch_aggregated_data redis_later k"
    if nk: "k \<notin> snd ` set ops" and big: "maxsize \<le> card (snd ` set ops)"
    using d0 l0 nk big by (rule evict_core)
  have first: "fst (get_aggregated_data redis_first ?c0 k) = fetch_aggregated_data redis_first k"
    if "map_of ?c0 k = None"
    using that by (simp add: get_miss)
  have query: "let ks = partition_keys (os_type_iteration (q_filters q))
                    (date_of start_time) (date_of end_time);
             cache0 = lookups [] history;
             rows = present (returned cache0 (map (Pair redis_first) ks));
             cache1 = lookups cache0 (map (Pair redis_first) ks)
         in execute_on_pre_aggregated redis_first cache0 q = Inr (rows, cache1)
            \<and> execute_on_pre_aggregated redis_first [] q
                = Inr (present (map (fetch_aggregated_data redis_first) ks),
                       lookups [] (map (Pair redis_first) ks))
            \<and> (card (set ks \<union> snd ` set ops) \<le> maxsize \<longrightarrow>
                  execute_on_pre_aggregated redis_later (lookups cache1 ops) q
                    = Inr (rows, lookups (lookups cache1 ops) (map (Pair redis_later) ks)))
            \<and> (distinct ks \<and> set ks \<inter> snd ` set ops = {}
                  \<and> maxsize \<le> card (snd ` set ops) \<longrightarrow>
                  execute_on_pre_aggregated redis_later (lookups cache1 ops) q
                    = Inr (present (map (fetch_aggregated_data redis_later) ks),
                           lookups (lookups cache1 ops) (map (Pair redis_later) ks)))"
    if s: "q_start_time q = Some start_time" and e: "q_end_time q = Some end_time"
  proof -
    let ?ks = "partition_keys (os_type_iteration (q_filters q))
                 (date_of start_time) (date_of end_time)"
    note ex = execute_on_pre_aggregated_lookups[OF s e]
    have "fresh redis_first []" by (simp add: fresh_def)
    then have a: "returned [] (map (Pair redis_first) ?ks)
        = map (fetch_aggregated_data redis_first) ?ks"
      by (rule fresh_returned)
    have b: "returned (lookups (lookups ?c0 (map (Pair redis_first) ?ks)) ops)
          (map (Pair redis_later) ?ks)
        = returned ?c0 (map (Pair redis_first) ?ks)"
      if "card (set ?ks \<union> snd ` set ops) \<le> maxsize"
      using d0 that by (rule returned_repeat)
    have c: "returned (lookups (lookups ?c0 (map (Pair redis_first) ?ks)) ops)
          (map (Pair redis_later) ?ks)
        = map (fetch_aggregated_data redis_later) ?ks"
      if "distinct ?ks" "set ?ks \<inter> snd ` set ops = {}" "maxsize \<le> card (snd ` set ops)"
      using d0 l0 that by (rule returned_evicted)
    show ?thesis
      unfolding Let_def ex using a b c by simp
  qed
  show ?thesis
    using stick evict first query
      date_loop_lookups[of redis_client os_types start_date end_date results cache]
    by (simp add: maxsize_def)
qed

theorem lru_cached_value_until_evicted_witness:
  "execute_on_pre_aggregated Map.empty [] (planned_query ''historical'' [''process_count''])
     = Inr ([], [(''2024-01-01_mac'', None), (''2024-01-01_linux'', None),
                 (''2024-01-01_windows'', None)])
   \<and> execute_on_pre_aggregated [''agg_2024-01-01_linux'' \<mapsto> Aggregated linux_rollup]
        [(''2024-01-01_mac'', None), (''2024-01-01_linux'', None),
         (''2024-01-01_windows'', None)]
        (planned_query ''historical'' [''process_count''])
     = Inr ([], [(''2024-01-01_mac'', None), (''2024-01-01_linux'', None),
                 (''2024-01-01_windows'', None)])
   \<and> map_sum id fst
        (execute_on_pre_aggregated [''agg_2024-01-01_linux'' \<mapsto> Aggregated linux_rollup]
           (lookups [(''2024-01-01_mac'', None), (''2024-01-01_linux'', None),
                     (''2024-01-01_windows'', None)]
              (map (\<lambda>n. (Map.empty, replicate n CHR ''a'')) [0..<128]))
           (planned_query ''historical'' [''process_count'']))
     = Inr [Aggregated linux_rollup]
   \<and> fst (get_aggregated_data [''agg_2024-01-01_linux'' \<mapsto> Aggregated linux_rollup]
          (snd (get_aggregated_data Map.empty [] ''2024-01-01_linux'')) ''2024-01-01_linux'')
     = None
   \<and> fst (get_aggregated_data [''agg_2024-01-01_linux'' \<mapsto> Aggregated linux_rollup]
          (lookups (snd (get_aggregated_data Map.empty [] ''2024-01-01_linux''))
             (map (\<lambda>n. (Map.empty, replicate n CHR ''a'')) [0..<128]))
          ''2024-01-01_linux'')
     = Some (Aggregated linux_rollup)"
proof -
  let ?k = "''2024-01-01_linux''"
  let ?q = "planned_query ''historical'' [''process_count'']"
  let ?later = "[''agg_2024-01-01_linux'' \<mapsto> Aggregated linux_rollup]"
  let ?ops = "map (\<lambda>n. (Map.empty :: redis, replicate n CHR ''a'')) [0..<128]"
  let ?ks = "[''2024-01-01_windows'', ''2024-01-01_linux'', ''2024-01-01_mac'']"
  let ?c1 = "[(''2024-01-01_mac'', None :: redis_value option), (''2024-01-01_linux'', None),
              (''2024-01-01_windows'', None)]"
  have s: "q_start_time ?q = Some jan_1_2024" and e: "q_end_time ?q = Some jan_1_2024"
    by (simp_all add: planned_query_def)
  have day: "date_of jan_1_2024 = 738886"
    by (simp add: date_of_def jan_1_2024_def)
  have ks: "partition_keys (os_type_iteration (q_filters ?q))
              (date_of jan_1_2024) (date_of jan_1_2024) = ?ks"
    by (simp add: day partition_keys_def os_type_iteration_def planned_query_def
        date_isoformat_jan_1_2024)
  have first: "fst (get_aggregated_data Map.empty (lookups [] []) ?k) = None"
    by (simp add: get_aggregated_data_def fetch_aggregated_data_def)
  have miss: "map_of (lookups [] []) ?k = None"
    by simp
  have keys: "snd ` set ?ops = (\<lambda>n. replicate n CHR ''a'') ` {0..<128}"
    by (simp add: image_image)
  have "inj_on (\<lambda>n. replicate n CHR ''a'') {0..<128}"
    by (rule inj_onI) (drule arg_cong[where f = length], simp)
  then have card: "card (snd ` set ?ops) = 128"
    unfolding keys by (simp add: card_image)
  have "CHR ''2'' \<notin> set (replicate n CHR ''a'')" for n
    by simp
  then have other: "CHR ''2'' # x \<noteq> replicate n CHR ''a''" for n x
    by (metis list.set_intros(1))
  then have notin: "?k \<notin> snd ` set ?ops"
    unfolding keys by blast
  from other have disj: "set ?ks \<inter> snd ` set ?ops = {}"
    unfolding keys by auto
  have dist: "distinct ?ks" by simp
  have few: "card (set ?ks \<union> snd ` set ([] :: (redis \<times> string) list)) \<le> maxsize"
    by (simp add: maxsize_def)
  have fetch: "fetch_aggregated_data ?later ?k = Some (Aggregated linux_rollup)"
    by (simp add: fetch_aggregated_data_def)
  have c1: "lookups [] (map (Pair (Map.empty :: redis)) ?ks) = ?c1"
    by (simp add: get_aggregated_data_def fetch_aggregated_data_def maxsize_def)
  have rows: "present (returned [] (map (Pair (Map.empty :: redis)) ?ks)) = []"
    by (simp add: get_aggregated_data_def fetch_aggregated_data_def maxsize_def)
  have again: "lookups ?c1 (map (Pair ?later) ?ks) = ?c1"
    by (simp add: get_aggregated_data_def fetch_aggregated_data_def maxsize_def)
  have read: "present (map (fetch_aggregated_data ?later) ?ks) = [Aggregated linux_rollup]"
    by (simp add: fetch_aggregated_data_def)
  note near = lru_cached_value_until_evicted[where ops = "[]" and k = ?k
      and redis_later = ?later and redis_first = Map.empty and history = "[]" and q = ?q
      and start_time = jan_1_2024 and end_time = jan_1_2024, unfolded Let_def ks]
  note far = lru_cached_value_until_evicted[where ops = ?ops and k = ?k
      and redis_later = ?later and redis_first = Map.empty and history = "[]" and q = ?q
      and start_time = jan_1_2024 and end_time = jan_1_2024, unfolded Let_def ks]
  from near s e have a: "execute_on_pre_aggregated Map.empty [] ?q = Inr ([], ?c1)"
    using c1 rows by simp
  from near s e few have b: "execute_on_pre_aggregated ?later ?c1 ?q = Inr ([], ?c1)"
    using c1 rows again by simp
  from far s e dist disj card
  have "execute_on_pre_aggregated ?later (lookups ?c1 ?ops) ?q
      = Inr (present (map (fetch_aggregated_data ?later) ?ks),
             lookups (lookups ?c1 ?ops) (map (Pair ?later) ?ks))"
    using c1 by (simp add: maxsize_def)
  then have c: "map_sum id fst (execute_on_pre_aggregated ?later (lookups ?c1 ?ops) ?q)
      = Inr [Aggregated linux_rollup]"
    using read by simp
  from near first miss
  have d: "fst (get_aggregated_data ?later
             (snd (get_aggregated_data Map.empty [] ?k)) ?k) = None"
    by (simp add: maxsize_def)
  from far notin card fetch
  have f: "fst (get_aggregated_data ?later
             (lookups (snd (get_aggregated_data Map.empty [] ?k)) ?ops) ?k)
           = Some (Aggregated linux_rollup)"
    by (simp add: maxsize_def)
  from a b c d f show ?thesis by simp
qed

subsection \<open>A query without a filter on the operating system\<close>

text \<open>
  When every entry of the cache is what Redis holds, a query on the aggregates without an
  \<^verbatim>\<open>os_type\<close> filter returns, for every day from the day of its start time to the day
  of its end time and for the tags \<^verbatim>\<open>windows\<close>, \<^verbatim>\<open>linux\<close>, \<^verbatim>\<open>mac\<close> in this order, the
  value stored under \<^verbatim>\<open>agg_<day>_<tag>\<close>, leaving out the keys that hold nothing.
\<close>

theorem pre_aggregated_without_filter:
  assumes "fresh redis_client cache"
    and "q_start_time q = Some start_time" and "q_end_time q = Some end_time"
    and "f_os_type (q_filters q) = None"
  shows "\<exists>cache'. execute_on_pre_aggregated redis_client cache q
     = Inr (present (map (fetch_aggregated_data redis_client)
              (concat (map (\<lambda>d. [date_isoformat d @ ''_windows'',
                                   date_isoformat d @ ''_linux'',
                                   date_isoformat d @ ''_mac''])
                         [date_of start_time..date_of end_time]))),
            cache')"
proof -
  have keys: "partition_keys [''windows'', ''linux'', ''mac''] d1 d2
      = concat (map (\<lambda>d. [date_isoformat d @ ''_windows'', date_isoformat d @ ''_linux'',
                            date_isoformat d @ ''_mac'']) [d1..d2])" for d1 d2
    by (simp add: partition_keys_def)
  show ?thesis
    using assms
    by (simp add: execute_on_pre_aggregated_def os_type_iteration_def date_loop_lookups
        fresh_returned keys)
qed

theorem pre_aggregated_without_filter_witness:
  "\<exists>cache'. execute_on_pre_aggregated
       [''agg_2024-01-01_linux'' \<mapsto> Aggregated linux_rollup] []
       (planned_query ''historical'' [''process_count''])
     = Inr ([Aggregated linux_rollup], cache')"
proof -
  let ?r = "[''agg_2024-01-01_linux'' \<mapsto> Aggregated linux_rollup]"
  let ?q = "planned_query ''historical'' [''process_count'']"
  have f: "fresh ?r []" by (simp add: fresh_def)
  have s: "q_start_time ?q = Some jan_1_2024" and e: "q_end_time ?q = Some jan_1_2024"
    and n: "f_os_type (q_filters ?q) = None"
    by (simp_all add: planned_query_def)
  have day: "date_of jan_1_2024 = 738886"
    by (simp add: date_of_def jan_1_2024_def)
  from pre_aggregated_without_filter[OF f s e n] show ?thesis
    by (simp add: day date_isoformat_jan_1_2024 fetch_aggregated_data_def)
qed

section \<open>The parser of \<^verbatim>\<open>ps aux\<close> output\<close>

lemma unix_parse_first_data_line:
  assumes "drop 1 (split_char CHR 0x0A (strip content)) = line # rest"
    and "\<not> startswith line ''USER''"
  shows "unix_parse float_of content = Inl (HTTPException 400)"
  using assms by (simp add: unix_parse_def)

lemma unix_parse_line_not_eleven:
  assumes "length (re_split_spaces [] (strip line)) \<noteq> 11"
  shows "unix_parse_line float_of line = Inl (HTTPException 400)"
  using assms by (simp add: unix_parse_line_def)

text \<open>
  Claim C1 does not hold of the code. \<^verbatim>\<open>parse\<close> drops the first line and then tests the
  first line that is left, a data line, for the prefix \<^verbatim>\<open>USER\<close>; a listing with its header
  and the process of \<^verbatim>\<open>root\<close> is refused with the error 400. A data line that passes this
  test is refused as well when its command has arguments, because the number of its
  fields is not 11.
\<close>

theorem unix_parse_rejects_well_formed_listing:
  "unix_parse float_of ps_listing = Inl (HTTPException 400)
   \<and> unix_parse float_of ps_listing_arguments = Inl (HTTPException 400)"
  by (simp add: unix_parse_def ps_listing_def ps_listing_arguments_def strip_def isspace_def
      startswith_def unix_parse_line_def)

text \<open>
  Claim C3 does not hold of the code. The first line of the text is never tested: a text
  whose first line starts with \<^verbatim>\<open>UID\<close> is parsed into one record whenever \<^verbatim>\<open>float\<close> reads
  the two usage fields.
\<close>

theorem unix_parse_accepts_bad_header:
  "unix_parse float_of ps_listing_bad_header =
     (case (float_of ''0.0'', float_of ''0.1'') of
        (Some cpu, Some mem) \<Rightarrow>
          Inr [\<lparr> pd_user = ''USER1'', pd_pid = 1, pd_cpu_usage = cpu, pd_mem_usage = mem,
                 pd_vsz = 169000, pd_rss = 11000, pd_tty = ''?'', pd_stat = ''Ss'',
                 pd_start_time = ''10:00'', pd_duration = ''0:01'',
                 pd_command = ''/sbin/init'' \<rparr>]
      | _ \<Rightarrow> Inl (HTTPException 400))"
  by (simp add: unix_parse_def ps_listing_bad_header_def strip_def isspace_def startswith_def
      unix_parse_line_def py_int_def isdigit_def digits_value_def Let_def
      split: option.splits)

section \<open>The parser of \<^verbatim>\<open>tasklist\<close> output\<close>

text \<open>
  A data line without a word after the last column start, an empty line among them, ends
  the call with \<^verbatim>\<open>IndexError\<close>, and a PID field that \<^verbatim>\<open>int\<close> cannot read ends it with
  \<^verbatim>\<open>ValueError\<close>.
\<close>

lemma windows_parse_line_empty:
  "windows_parse_line float_of column_positions [] = Inl IndexError"
  by (simp add: windows_parse_line_def windows_fields_def split_words_def)

lemma windows_parse_line_bad_pid:
  assumes "windows_fields column_positions line = Inr row_fields"
    and "5 \<le> length row_fields"
    and "py_int (row_fields ! 1) = Inl ValueError"
  shows "windows_parse_line float_of column_positions line = Inl ValueError"
  using assms by (simp add: windows_parse_line_def Let_def)

text \<open>
  The memory column: a figure that \<^verbatim>\<open>float\<close> cannot read, such as \<^verbatim>\<open>N/A\<close>, gives the
  memory usage 0, and \<^verbatim>\<open>12,345 K\<close> gives what \<^verbatim>\<open>float\<close> reads from \<^verbatim>\<open>12345\<close>. The other
  fields are the image name, the PID and the session name; the columns the format lacks are
  0 or \<^verbatim>\<open>N/A\<close>.
\<close>

theorem windows_mem_usage:
  assumes "float_of ''N/A'' = None" and "float_of ''12345'' = Some m"
  shows "windows_parse float_of tasklist_listing
     = Inr [\<lparr> pd_user = ''N/A'', pd_pid = 0, pd_cpu_usage = 0, pd_mem_usage = 0,
               pd_vsz = 0, pd_rss = 0, pd_tty = ''Services'', pd_stat = ''N/A'',
               pd_start_time = ''N/A'', pd_duration = ''N/A'',
               pd_command = ''System Idle Process'' \<rparr>,
            \<lparr> pd_user = ''N/A'', pd_pid = 984, pd_cpu_usage = 0, pd_mem_usage = m,
               pd_vsz = 0, pd_rss = 0, pd_tty = ''Services'', pd_stat = ''N/A'',
               pd_start_time = ''N/A'', pd_duration = ''N/A'',
               pd_command = ''svchost.exe'' \<rparr>]"
proof -
  have lines: "splitlines tasklist_listing =
     [[],
      ''Image Name                     PID Session Name        Session#    Mem Usage'',
      ''========================= ======== ================ =========== ============'',
      ''System Idle Process              0 Services                   0          N/A'',
      ''svchost.exe                    984 Services                   0     12,345 K'']"
    by (simp add: splitlines_def tasklist_listing_def islinebreak_def)
  have cols: "column_starts 0 None
      ''========================= ======== ================ =========== ============''
      = [0, 26, 35, 52, 64]"
    by simp
  have sep: "find_separator 0
     [[],
      ''Image Name                     PID Session Name        Session#    Mem Usage'',
      ''========================= ======== ================ =========== ============'',
      ''System Idle Process              0 Services                   0          N/A'',
      ''svchost.exe                    984 Services                   0     12,345 K''] = 2"
    by (simp add: startswith_def strip_def isspace_def)
  have l1: "windows_parse_line float_of [0, 26, 35, 52, 64]
      ''System Idle Process              0 Services                   0          N/A''
      = Inr \<lparr> pd_user = ''N/A'', pd_pid = 0, pd_cpu_usage = 0, pd_mem_usage = 0,
               pd_vsz = 0, pd_rss = 0, pd_tty = ''Services'', pd_stat = ''N/A'',
               pd_start_time = ''N/A'', pd_duration = ''N/A'',
               pd_command = ''System Idle Process'' \<rparr>"
    using assms(1)
    by (simp add: windows_parse_line_def windows_fields_def split_words_def slice_def
        strip_def isspace_def remove_char_def py_int_def isdigit_def digits_value_def Let_def)
  have l2: "windows_parse_line float_of [0, 26, 35, 52, 64]
      ''svchost.exe                    984 Services                   0     12,345 K''
      = Inr \<lparr> pd_user = ''N/A'', pd_pid = 984, pd_cpu_usage = 0, pd_mem_usage = m,
               pd_vsz = 0, pd_rss = 0, pd_tty = ''Services'', pd_stat = ''N/A'',
               pd_start_time = ''N/A'', pd_duration = ''N/A'',
               pd_command = ''svchost.exe'' \<rparr>"
    using assms(2)
    by (simp add: windows_parse_line_def windows_fields_def split_words_def slice_def
        strip_def isspace_def remove_char_def py_int_def isdigit_def digits_value_def Let_def)
  have "windows_parse float_of tasklist_listing
      = windows_parse_lines float_of
          (column_starts 0 None
            ''========================= ======== ================ =========== ============'')
          []
          [''System Idle Process              0 Services                   0          N/A'',
           ''svchost.exe                    984 Services                   0     12,345 K'']"
    by (simp add: windows_parse_def lines Let_def startswith_def strip_def isspace_def
        del: column_starts.simps)
  then show ?thesis
    unfolding cols by (simp add: l1 l2)
qed

theorem windows_mem_usage_witness:
  "float_12345 ''N/A'' = None \<and> float_12345 ''12345'' = Some 12345
   \<and> map pd_mem_usage (projr (windows_parse float_12345 tasklist_listing)) = [0, 12345]"
proof -
  have a: "float_12345 ''N/A'' = None" and b: "float_12345 ''12345'' = Some 12345"
    by (simp_all add: float_12345_def)
  from windows_mem_usage[OF a b] a b show ?thesis by simp
qed

section \<open>The ingestion pipeline\<close>

subsection \<open>Batch identifiers\<close>

lemma strftime_same_second:
  assumes "t1 div 1000000 = t2 div 1000000"
  shows "strftime_YmdHMS t1 = strftime_YmdHMS t2"
proof -
  have "t div 86400000000 = (t div 1000000) div 86400" for t :: int
    by (simp add: div_mult2_eq[symmetric])
  then have "date_of t1 = date_of t2"
    using assms by (simp add: date_of_def)
  then show ?thesis using assms by (simp add: strftime_YmdHMS_def)
qed


lemma strftime_noon: "strftime_YmdHMS (jan_1_2024 + 43200000000) = ''20240101120000''"
  unfolding jan_1_2024_def by code_simp

text \<open>
  Claim C2 does not hold of the code. The batch identifier is the clock reading cut to the
  second. Two calls at 12:00:00.000000 and 12:00:00.999999 of one day get the same
  identifier, and the batch staged by the second call replaces that of the first.
\<close>

theorem batch_id_collision:
  "store_process_data_in_redis (jan_1_2024 + 43200000000) Map.empty test_meta
       [process_named ''init'' 1 1]
     = Inr ((''batch_20240101120000'', 1),
            [''batch_20240101120000'' \<mapsto>
               StagedBatch staged_meta [to_dict (process_named ''init'' 1 1)]])
   \<and> store_process_data_in_redis (jan_1_2024 + 43200999999)
       [''batch_20240101120000'' \<mapsto>
          StagedBatch staged_meta [to_dict (process_named ''init'' 1 1)]]
       test_meta [process_named ''python3'' 2 1, process_named ''bash'' 0 1]
     = Inr ((''batch_20240101120000'', 2),
            [''batch_20240101120000'' \<mapsto>
               StagedBatch staged_meta
                 [to_dict (process_named ''python3'' 2 1), to_dict (process_named ''bash'' 0 1)]])"
proof -
  have "(jan_1_2024 + 43200999999) div 1000000 = (jan_1_2024 + 43200000000) div 1000000"
    by (simp add: jan_1_2024_def)
  then have "strftime_YmdHMS (jan_1_2024 + 43200999999) = ''20240101120000''"
    using strftime_same_second strftime_noon by metis
  then show ?thesis
    by (simp add: store_process_data_in_redis_def Let_def strftime_noon test_meta_def
        staged_meta_def)
qed

subsection \<open>Rollups\<close>

lemma write_groups_other:
  "k \<notin> (\<lambda>p. ''agg_'' @ p) ` set keys \<Longrightarrow> write_groups df keys redis_client k = redis_client k"
  by (induction keys arbitrary: redis_client) auto

lemma write_groups_key:
  "p \<in> set keys \<Longrightarrow>
   write_groups df keys redis_client (''agg_'' @ p)
     = Some (Aggregated (aggregate (filter (\<lambda>r. r_partition_key r = p) df)))"
proof (induction keys arbitrary: redis_client)
  case Nil
  then show ?case by simp
next
  case (Cons q rest)
  show ?case
  proof (cases "p \<in> set rest")
    case True
    then show ?thesis using Cons.IH[OF True] by simp
  next
    case False
    with Cons.prems have pq: "p = q" by simp
    from False have "''agg_'' @ p \<notin> (\<lambda>p. ''agg_'' @ p) ` set rest" by auto
    then show ?thesis using write_groups_other[of "''agg_'' @ p" rest] by (simp add: pq)
  qed
qed

lemma set_group_keys: "set (group_keys df) = r_partition_key ` set df"
  by (simp add: group_keys_def)

lemma update_key:
  "key \<in> r_partition_key ` set df \<Longrightarrow>
   update_redis_aggregations df redis_client (''agg_'' @ key)
     = Some (Aggregated (aggregate (filter (\<lambda>r. r_partition_key r = key) df)))"
  using write_groups_key[of key "group_keys df"]
  by (simp add: update_redis_aggregations_def set_group_keys)

lemma update_other:
  "k \<notin> (\<lambda>p. ''agg_'' @ p) ` r_partition_key ` set df \<Longrightarrow>
   update_redis_aggregations df redis_client k = redis_client k"
  by (simp add: update_redis_aggregations_def write_groups_other set_group_keys)

lemma nlargest_props:
  "length (nlargest n column rows) = min n (length rows)
   \<and> sorted_wrt (\<lambda>a b. column a \<ge> column b) (nlargest n column rows)
   \<and> (\<forall>v. filter (\<lambda>r. column r = v) (sort_key (\<lambda>r. - column r) rows)
           = filter (\<lambda>r. column r = v) rows)
   \<and> set (sort_key (\<lambda>r. - column r) rows) = set rows"
proof -
  let ?s = "sort_key (\<lambda>r. - column r) rows"
  have "sorted (map (\<lambda>r. - column r) ?s)" by (rule sorted_sort_key)
  then have "sorted_wrt (\<lambda>a b. - column a \<le> - column b) ?s"
    by (simp add: sorted_map)
  then have "sorted_wrt (\<lambda>a b. column a \<ge> column b) ?s" by simp
  then have a: "sorted_wrt (\<lambda>a b. column a \<ge> column b) (take n ?s)"
    by (rule sorted_wrt_take)
  have b: "filter (\<lambda>r. column r = v) ?s = filter (\<lambda>r. column r = v) rows" for v
    using sort_key_stable[of "\<lambda>r. - column r" "- v" rows] by simp
  show ?thesis using a b by (simp add: nlargest_def)
qed

lemma data_frame_keys:
  "r_partition_key ` set (data_frame to_datetime meta process_data)
     \<subseteq> {partition_key_of (to_datetime (m_timestamp meta)) (m_os_type meta)}"
  by (auto simp: data_frame_def)

lemma data_frame_filter:
  "filter (\<lambda>r. r_partition_key r
                 = partition_key_of (to_datetime (m_timestamp meta)) (m_os_type meta))
     (data_frame to_datetime meta process_data)
   = data_frame to_datetime meta process_data"
  by (simp add: data_frame_def)

lemma batch_key_not_agg:
  assumes "startswith batch_id ''batch_''"
  shows "batch_id \<noteq> ''agg_'' @ p"
proof
  assume "batch_id = ''agg_'' @ p"
  with assms show False by (simp add: startswith_def)
qed

lemma data_frame_readable:
  "list_all (\<lambda>r. r_timestamp r \<noteq> None) (data_frame to_datetime meta process_data)
     = (process_data = [] \<or> to_datetime (m_timestamp meta) \<noteq> None)"
  by (cases process_data) (auto simp: data_frame_def list_all_iff)

lemma update_sql_database_frame:
  "update_sql_database commits (data_frame to_datetime meta process_data) db
     = (if (process_data = [] \<or> to_datetime (m_timestamp meta) \<noteq> None)
           \<and> commits (data_frame to_datetime meta process_data)
        then Inr (db @ map (\<lambda>(i, r). to_db_row (length db + i + 1) r)
                        (enumerate 0 (data_frame to_datetime meta process_data)))
        else Inl DatabaseError)"
  by (simp only: update_sql_database_def data_frame_readable)

lemma materialize_success:
  assumes staged: "redis_client batch_id = Some (StagedBatch meta process_data)"
    and nonempty: "process_data \<noteq> []"
    and readable: "to_datetime (m_timestamp meta) = Some t"
    and commit: "commits (data_frame to_datetime meta process_data)"
  shows "process_and_store_data commits to_datetime batch_id (redis_client, db)
     = Inr ((update_redis_aggregations (data_frame to_datetime meta process_data) redis_client)
              (batch_id := None),
            db @ map (\<lambda>(i, r). to_db_row (length db + i + 1) r)
                   (enumerate 0 (data_frame to_datetime meta process_data)))"
  using assms
  by (simp add: process_and_store_data_def Let_def update_sql_database_frame)

lemma materialize_refused:
  assumes staged: "redis_client batch_id = Some (StagedBatch meta process_data)"
    and nonempty: "process_data \<noteq> []"
    and refused: "to_datetime (m_timestamp meta) = None
                  \<or> \<not> commits (data_frame to_datetime meta process_data)"
  shows "process_and_store_data commits to_datetime batch_id (redis_client, db)
     = Inl DatabaseError"
  using assms
  by (auto simp: process_and_store_data_def Let_def update_sql_database_frame)

lemma materialize_rollup:
  assumes staged: "redis_client batch_id = Some (StagedBatch meta process_data)"
    and nonempty: "process_data \<noteq> []"
    and batch: "startswith batch_id ''batch_''"
    and readable: "to_datetime (m_timestamp meta) = Some t"
    and commit: "commits (data_frame to_datetime meta process_data)"
  shows "\<exists>st. process_and_store_data commits to_datetime batch_id (redis_client, db) = Inr st
     \<and> fst st (''agg_'' @ partition_key_of (to_datetime (m_timestamp meta)) (m_os_type meta))
         = Some (Aggregated (aggregate (data_frame to_datetime meta process_data)))"
proof -
  let ?df = "data_frame to_datetime meta process_data"
  let ?key = "partition_key_of (to_datetime (m_timestamp meta)) (m_os_type meta)"
  from nonempty obtain p ps where "process_data = p # ps" by (cases process_data) auto
  then have "?key \<in> r_partition_key ` set ?df" by (simp add: data_frame_def)
  then have "update_redis_aggregations ?df redis_client (''agg_'' @ ?key)
      = Some (Aggregated (aggregate (filter (\<lambda>r. r_partition_key r = ?key) ?df)))"
    by (rule update_key)
  then have "update_redis_aggregations ?df redis_client (''agg_'' @ ?key)
      = Some (Aggregated (aggregate ?df))"
    by (simp only: data_frame_filter)
  moreover have "batch_id \<noteq> ''agg_'' @ ?key" using batch by (rule batch_key_not_agg)
  ultimately show ?thesis
    using materialize_success[where redis_client = redis_client and batch_id = batch_id
        and commits = commits and to_datetime = to_datetime and db = db,
        OF staged nonempty readable commit]
    by simp
qed

lemma materialize_keeps_other_batch:
  assumes run: "process_and_store_data commits to_datetime batch_id (redis_client, db) = Inr st"
    and staged: "redis_client batch_id = Some (StagedBatch meta process_data)"
    and other: "other_id \<noteq> batch_id" "startswith other_id ''batch_''"
  shows "fst st other_id = redis_client other_id"
proof -
  have "other_id \<notin> (\<lambda>p. ''agg_'' @ p) ` S" for S
    using batch_key_not_agg[OF other(2)] by blast
  then have "update_redis_aggregations df redis_client other_id = redis_client other_id" for df
    by (rule update_other)
  then show ?thesis
    using run staged other(1)
    by (auto simp: process_and_store_data_def Let_def split: if_splits sum.splits)
qed

text \<open>
  Claim C4. \<^verbatim>\<open>_update_redis_aggregations\<close> writes, for every partition key of the batch,
  the aggregate of the rows of that key in this batch: the sum of their CPU usages, the
  sum of their memory usages, the number of their distinct commands, and for either usage
  the first ten rows of the stable sort by descending usage (so rows of equal usage keep
  their order in the batch), as pairs of command and usage. What the key held before does
  not enter the result, and keys of other partitions keep their values. A materialisation
  reaches this step when the insert into the table succeeds, that is, when the timestamp
  of the batch is readable and the database commits; it then returns with the aggregate of
  the batch under the key of its partition. When the insert is refused, the call ends with
  the error of the database and writes nothing. Materialising two staged batches of the
  same partition one after the other, both inserts succeeding, leaves the aggregate of the
  second batch alone under the key.
\<close>

theorem rollup_overwritten_per_partition:
  assumes "key \<in> set (map r_partition_key batch)"
  shows
  "update_redis_aggregations batch redis_client (''agg_'' @ key)
     = Some (Aggregated (aggregate (filter (\<lambda>r. r_partition_key r = key) batch)))
   \<and> total_cpu_usage (aggregate rows) = sum_list (map r_cpu_usage rows)
   \<and> total_memory_usage (aggregate rows) = sum_list (map r_mem_usage rows)
   \<and> process_count (aggregate rows) = card (r_command ` set rows)
   \<and> top_cpu_processes (aggregate rows)
       = map (\<lambda>r. (r_command r, r_cpu_usage r)) (take 10 (sort_key (\<lambda>r. - r_cpu_usage r) rows))
   \<and> top_memory_processes (aggregate rows)
       = map (\<lambda>r. (r_command r, r_mem_usage r)) (take 10 (sort_key (\<lambda>r. - r_mem_usage r) rows))
   \<and> length (top_cpu_processes (aggregate rows)) = min 10 (length rows)
   \<and> length (top_memory_processes (aggregate rows)) = min 10 (length rows)
   \<and> sorted_wrt (\<lambda>a b. snd a \<ge> snd b) (top_cpu_processes (aggregate rows))
   \<and> sorted_wrt (\<lambda>a b. snd a \<ge> snd b) (top_memory_processes (aggregate rows))
   \<and> (\<forall>v. filter (\<lambda>r. r_cpu_usage r = v) (sort_key (\<lambda>r. - r_cpu_usage r) rows)
            = filter (\<lambda>r. r_cpu_usage r = v) rows)
   \<and> (\<forall>v. filter (\<lambda>r. r_mem_usage r = v) (sort_key (\<lambda>r. - r_mem_usage r) rows)
            = filter (\<lambda>r. r_mem_usage r = v) rows)
   \<and> (\<forall>k. k \<notin> (\<lambda>p. ''agg_'' @ p) ` set (map r_partition_key batch) \<longrightarrow>
            update_redis_aggregations batch redis_client k = redis_client k)
   \<and> (key \<in> set (map r_partition_key earlier) \<longrightarrow>
        update_redis_aggregations batch
          (update_redis_aggregations earlier redis_client) (''agg_'' @ key)
        = Some (Aggregated (aggregate (filter (\<lambda>r. r_partition_key r = key) batch))))
   \<and> (redis_client id2 = Some (StagedBatch meta2 procs2)
        \<and> startswith id2 ''batch_'' \<and> procs2 \<noteq> []
        \<and> to_datetime (m_timestamp meta2) = Some t2
        \<and> commits (data_frame to_datetime meta2 procs2)
        \<longrightarrow>
        (\<exists>st. process_and_store_data commits to_datetime id2 (redis_client, db) = Inr st
           \<and> fst st (''agg_'' @ partition_key_of (to_datetime (m_timestamp meta2))
                                   (m_os_type meta2))
               = Some (Aggregated (aggregate (data_frame to_datetime meta2 procs2)))))
   \<and> (redis_client id2 = Some (StagedBatch meta2 procs2) \<and> procs2 \<noteq> []
        \<and> (to_datetime (m_timestamp meta2) = None
             \<or> \<not> commits (data_frame to_datetime meta2 procs2))
        \<longrightarrow>
        process_and_store_data commits to_datetime id2 (redis_client, db)
          = Inl DatabaseError)
   \<and> (redis_client id1 = Some (StagedBatch meta1 procs1)
        \<and> redis_client id2 = Some (StagedBatch meta2 procs2)
        \<and> id1 \<noteq> id2 \<and> startswith id1 ''batch_'' \<and> startswith id2 ''batch_''
        \<and> procs1 \<noteq> [] \<and> procs2 \<noteq> []
        \<and> to_datetime (m_timestamp meta1) = Some t1
        \<and> to_datetime (m_timestamp meta2) = Some t2
        \<and> commits (data_frame to_datetime meta1 procs1)
        \<and> commits (data_frame to_datetime meta2 procs2)
        \<and> partition_key_of (to_datetime (m_timestamp meta1)) (m_os_type meta1)
            = partition_key_of (to_datetime (m_timestamp meta2)) (m_os_type meta2)
        \<longrightarrow>
        (\<exists>st1 st2.
           process_and_store_data commits to_datetime id1 (redis_client, db) = Inr st1
           \<and> process_and_store_data commits to_datetime id2 st1 = Inr st2
           \<and> fst st2 (''agg_'' @ partition_key_of (to_datetime (m_timestamp meta2))
                                    (m_os_type meta2))
               = Some (Aggregated (aggregate (data_frame to_datetime meta2 procs2)))))"
proof -
  have key: "key \<in> r_partition_key ` set batch" using assms by simp
  have written: "update_redis_aggregations batch r (''agg_'' @ key)
     = Some (Aggregated (aggregate (filter (\<lambda>r. r_partition_key r = key) batch)))" for r
    using key by (rule update_key)
  have count: "process_count (aggregate rows) = card (r_command ` set rows)"
    by (simp add: aggregate_def length_remdups_card_conv)
  have cpu: "sorted_wrt (\<lambda>a b. snd a \<ge> snd b) (top_cpu_processes (aggregate rows))"
    using nlargest_props[of 10 r_cpu_usage rows]
    by (simp add: aggregate_def sorted_wrt_map)
  have mem: "sorted_wrt (\<lambda>a b. snd a \<ge> snd b) (top_memory_processes (aggregate rows))"
    using nlargest_props[of 10 r_mem_usage rows]
    by (simp add: aggregate_def sorted_wrt_map)
  have lens: "length (top_cpu_processes (aggregate rows)) = min 10 (length rows)"
    "length (top_memory_processes (aggregate rows)) = min 10 (length rows)"
    by (simp_all add: aggregate_def nlargest_def)
  have stable: "filter (\<lambda>r. r_cpu_usage r = v) (sort_key (\<lambda>r. - r_cpu_usage r) rows)
            = filter (\<lambda>r. r_cpu_usage r = v) rows"
    "filter (\<lambda>r. r_mem_usage r = v) (sort_key (\<lambda>r. - r_mem_usage r) rows)
            = filter (\<lambda>r. r_mem_usage r = v) rows" for v
    using nlargest_props[of 10 r_cpu_usage rows] nlargest_props[of 10 r_mem_usage rows]
    by blast+
  have others: "update_redis_aggregations batch redis_client k = redis_client k"
    if "k \<notin> (\<lambda>p. ''agg_'' @ p) ` set (map r_partition_key batch)" for k
    using that by (intro update_other) simp
  have one: "\<exists>st. process_and_store_data commits to_datetime id2 (redis_client, db) = Inr st
           \<and> fst st (''agg_'' @ partition_key_of (to_datetime (m_timestamp meta2))
                                   (m_os_type meta2))
               = Some (Aggregated (aggregate (data_frame to_datetime meta2 procs2)))"
    if "redis_client id2 = Some (StagedBatch meta2 procs2)"
      and "procs2 \<noteq> []" and "startswith id2 ''batch_''"
      and "to_datetime (m_timestamp meta2) = Some t2"
      and "commits (data_frame to_datetime meta2 procs2)"
    using materialize_rollup[where redis_client = redis_client and batch_id = id2
        and commits = commits and to_datetime = to_datetime and db = db,
        OF that(1) that(2) that(3) that(4) that(5)] .
  have refused: "process_and_store_data commits to_datetime id2 (redis_client, db)
          = Inl DatabaseError"
    if "redis_client id2 = Some (StagedBatch meta2 procs2)" and "procs2 \<noteq> []"
      and "to_datetime (m_timestamp meta2) = None
           \<or> \<not> commits (data_frame to_datetime meta2 procs2)"
    using materialize_refused[where redis_client = redis_client and batch_id = id2
        and commits = commits and to_datetime = to_datetime and db = db,
        OF that(1) that(2) that(3)] .
  have two: "\<exists>st1 st2.
           process_and_store_data commits to_datetime id1 (redis_client, db) = Inr st1
           \<and> process_and_store_data commits to_datetime id2 st1 = Inr st2
           \<and> fst st2 (''agg_'' @ partition_key_of (to_datetime (m_timestamp meta2))
                                    (m_os_type meta2))
               = Some (Aggregated (aggregate (data_frame to_datetime meta2 procs2)))"
    if s1: "redis_client id1 = Some (StagedBatch meta1 procs1)"
      and s2: "redis_client id2 = Some (StagedBatch meta2 procs2)"
      and ne: "id1 \<noteq> id2" and b2: "startswith id2 ''batch_''"
      and p1: "procs1 \<noteq> []" and p2: "procs2 \<noteq> []"
      and r1: "to_datetime (m_timestamp meta1) = Some t1"
      and r2: "to_datetime (m_timestamp meta2) = Some t2"
      and c1: "commits (data_frame to_datetime meta1 procs1)"
      and c2: "commits (data_frame to_datetime meta2 procs2)"
  proof -
    obtain st1 where st1:
      "process_and_store_data commits to_datetime id1 (redis_client, db) = Inr st1"
      using materialize_success[where redis_client = redis_client and batch_id = id1
          and commits = commits and to_datetime = to_datetime and db = db,
          OF s1 p1 r1 c1]
      by blast
    obtain redis1 db1 where pair: "st1 = (redis1, db1)" by (cases st1)
    have "fst st1 id2 = redis_client id2"
      using materialize_keeps_other_batch[where redis_client = redis_client
          and batch_id = id1 and other_id = id2, OF st1 s1 ne[symmetric] b2] .
    then have "redis1 id2 = Some (StagedBatch meta2 procs2)" using s2 pair by simp
    from materialize_rollup[where redis_client = redis1 and batch_id = id2
        and commits = commits and to_datetime = to_datetime and db = db1,
        OF this p2 b2 r2 c2]
    show ?thesis using st1 pair by blast
  qed
  show ?thesis
    using written count cpu mem lens stable others one refused two
    by (simp add: aggregate_def nlargest_def)
qed

theorem rollup_overwritten_per_partition_witness:
  "''2024-01-01_linux'' \<in> set (map r_partition_key example_frame)
   \<and> update_redis_aggregations example_frame
        [''agg_2024-01-01_linux'' \<mapsto> Aggregated linux_rollup] ''agg_2024-01-01_linux''
      = Some (Aggregated
          \<lparr> total_cpu_usage = 4, total_memory_usage = 7, process_count = 2,
            top_cpu_processes = [(''python3'', 2), (''init'', 1), (''init'', 1)],
            top_memory_processes = [(''init'', 4), (''init'', 2), (''python3'', 1)] \<rparr>)
   \<and> (\<exists>st1 st2.
         process_and_store_data always_commits example_to_datetime ''batch_20240101120000''
           (two_staged, []) = Inr st1
         \<and> process_and_store_data always_commits example_to_datetime ''batch_20240101120001''
             st1 = Inr st2
         \<and> fst st2 ''agg_2024-01-01_linux''
             = Some (Aggregated
                 \<lparr> total_cpu_usage = 2, total_memory_usage = 2, process_count = 2,
                   top_cpu_processes = [(''python3'', 2), (''bash'', 0)],
                   top_memory_processes = [(''python3'', 1), (''bash'', 1)] \<rparr>))
   \<and> process_and_store_data always_commits example_to_datetime ''batch_20240101120002''
        (unreadable_staged, []) = Inl DatabaseError"
proof -
  have key: "''2024-01-01_linux'' \<in> set (map r_partition_key example_frame)"
    by (simp add: example_frame_def frame_row_def)
  from rollup_overwritten_per_partition[OF key,
      of "[''agg_2024-01-01_linux'' \<mapsto> Aggregated linux_rollup]"]
  have "update_redis_aggregations example_frame
          [''agg_2024-01-01_linux'' \<mapsto> Aggregated linux_rollup] ''agg_2024-01-01_linux''
        = Some (Aggregated (aggregate
            (filter (\<lambda>r. r_partition_key r = ''2024-01-01_linux'') example_frame)))"
    by simp
  then have one: "update_redis_aggregations example_frame
        [''agg_2024-01-01_linux'' \<mapsto> Aggregated linux_rollup] ''agg_2024-01-01_linux''
      = Some (Aggregated
          \<lparr> total_cpu_usage = 4, total_memory_usage = 7, process_count = 2,
            top_cpu_processes = [(''python3'', 2), (''init'', 1), (''init'', 1)],
            top_memory_processes = [(''init'', 4), (''init'', 2), (''python3'', 1)] \<rparr>)"
    by (simp add: example_frame_def frame_row_def aggregate_def nlargest_def)
  have day: "date_of (jan_1_2024 + 43200000000) = 738886"
    by (simp add: date_of_def jan_1_2024_def)
  have pk: "partition_key_of (example_to_datetime (m_timestamp staged_meta))
      (m_os_type staged_meta) = ''2024-01-01_linux''"
    by (simp add: partition_key_of_def example_to_datetime_def staged_meta_def day
        date_isoformat_jan_1_2024)
  have staged:
    "two_staged ''batch_20240101120000''
       = Some (StagedBatch staged_meta [to_dict (process_named ''init'' 1 1)])
     \<and> two_staged ''batch_20240101120001''
       = Some (StagedBatch staged_meta
           [to_dict (process_named ''python3'' 2 1), to_dict (process_named ''bash'' 0 1)])
     \<and> ''batch_20240101120000'' \<noteq> ''batch_20240101120001''
     \<and> startswith ''batch_20240101120000'' ''batch_''
     \<and> startswith ''batch_20240101120001'' ''batch_''
     \<and> [to_dict (process_named ''init'' 1 1)] \<noteq> []
     \<and> [to_dict (process_named ''python3'' 2 1), to_dict (process_named ''bash'' 0 1)] \<noteq> []
     \<and> example_to_datetime (m_timestamp staged_meta) = Some (jan_1_2024 + 43200000000)
     \<and> always_commits (data_frame example_to_datetime staged_meta
           [to_dict (process_named ''init'' 1 1)])
     \<and> always_commits (data_frame example_to_datetime staged_meta
           [to_dict (process_named ''python3'' 2 1), to_dict (process_named ''bash'' 0 1)])
     \<and> partition_key_of (example_to_datetime (m_timestamp staged_meta))
           (m_os_type staged_meta)
         = partition_key_of (example_to_datetime (m_timestamp staged_meta))
             (m_os_type staged_meta)"
    by (simp add: two_staged_def startswith_def always_commits_def example_to_datetime_def
        staged_meta_def)
  from rollup_overwritten_per_partition[OF key, where redis_client = two_staged
      and ?id1.0 = "''batch_20240101120000''" and ?id2.0 = "''batch_20240101120001''"
      and ?meta1.0 = staged_meta and ?meta2.0 = staged_meta
      and ?procs1.0 = "[to_dict (process_named ''init'' 1 1)]"
      and ?procs2.0 = "[to_dict (process_named ''python3'' 2 1), to_dict (process_named ''bash'' 0 1)]"
      and ?t1.0 = "jan_1_2024 + 43200000000" and ?t2.0 = "jan_1_2024 + 43200000000"
      and commits = always_commits
      and to_datetime = example_to_datetime and db = "[]"] staged
  obtain st1 st2 where run:
    "process_and_store_data always_commits example_to_datetime ''batch_20240101120000''
       (two_staged, []) = Inr st1"
    "process_and_store_data always_commits example_to_datetime ''batch_20240101120001''
       st1 = Inr st2"
    "fst st2 (''agg_'' @ partition_key_of (example_to_datetime (m_timestamp staged_meta))
               (m_os_type staged_meta))
       = Some (Aggregated (aggregate (data_frame example_to_datetime staged_meta
           [to_dict (process_named ''python3'' 2 1), to_dict (process_named ''bash'' 0 1)])))"
    by blast
  from run(3) have "fst st2 ''agg_2024-01-01_linux''
      = Some (Aggregated
          \<lparr> total_cpu_usage = 2, total_memory_usage = 2, process_count = 2,
            top_cpu_processes = [(''python3'', 2), (''bash'', 0)],
            top_memory_processes = [(''python3'', 1), (''bash'', 1)] \<rparr>)"
    unfolding pk
    by (simp add: data_frame_def to_dict_def process_named_def aggregate_def nlargest_def)
  with run(1,2) have two: "\<exists>st1 st2.
         process_and_store_data always_commits example_to_datetime ''batch_20240101120000''
           (two_staged, []) = Inr st1
         \<and> process_and_store_data always_commits example_to_datetime ''batch_20240101120001''
             st1 = Inr st2
         \<and> fst st2 ''agg_2024-01-01_linux''
             = Some (Aggregated
                 \<lparr> total_cpu_usage = 2, total_memory_usage = 2, process_count = 2,
                   top_cpu_processes = [(''python3'', 2), (''bash'', 0)],
                   top_memory_processes = [(''python3'', 1), (''bash'', 1)] \<rparr>)"
    by blast
  have bad:
    "unreadable_staged ''batch_20240101120002''
       = Some (StagedBatch (staged_meta \<lparr>m_timestamp := ''not_a_timestamp''\<rparr>)
           [to_dict (process_named ''init'' 1 1)])
     \<and> [to_dict (process_named ''init'' 1 1)] \<noteq> []
     \<and> example_to_datetime (m_timestamp (staged_meta \<lparr>m_timestamp := ''not_a_timestamp''\<rparr>))
         = None"
    by (simp add: unreadable_staged_def example_to_datetime_def)
  from rollup_overwritten_per_partition[OF key, where redis_client = unreadable_staged
      and ?id2.0 = "''batch_20240101120002''"
      and ?meta2.0 = "staged_meta \<lparr>m_timestamp := ''not_a_timestamp''\<rparr>"
      and ?procs2.0 = "[to_dict (process_named ''init'' 1 1)]"
      and commits = always_commits
      and to_datetime = example_to_datetime and db = "[]"] bad
  have refused: "process_and_store_data always_commits example_to_datetime
      ''batch_20240101120002'' (unreadable_staged, []) = Inl DatabaseError"
    by blast
  from key one two refused show ?thesis by blast
qed

subsection \<open>What a materialisation leaves behind\<close>

text \<open>
  Materialising a batch identifier under which Redis holds nothing changes neither Redis
  nor the table. Materialising a staged batch with at least one record, a readable
  timestamp and a database that commits removes the staged batch from Redis and appends
  one row per record to the table, after the rows it held. When the timestamp is not
  readable or the database does not commit, the call ends with the error of the database.
\<close>

theorem materialize_effects:
  "(redis_client batch_id = None \<longrightarrow>
      process_and_store_data commits to_datetime batch_id (redis_client, db)
        = Inr (redis_client, db))
   \<and> (redis_client batch_id = Some (StagedBatch meta process_data) \<and> process_data \<noteq> []
        \<and> to_datetime (m_timestamp meta) = Some t
        \<and> commits (data_frame to_datetime meta process_data) \<longrightarrow>
        (\<exists>redis' db'.
           process_and_store_data commits to_datetime batch_id (redis_client, db)
             = Inr (redis', db')
           \<and> redis' batch_id = None
           \<and> length db' = length db + length process_data
           \<and> take (length db) db' = db))
   \<and> (redis_client batch_id = Some (StagedBatch meta process_data) \<and> process_data \<noteq> []
        \<and> (to_datetime (m_timestamp meta) = None
             \<or> \<not> commits (data_frame to_datetime meta process_data)) \<longrightarrow>
        process_and_store_data commits to_datetime batch_id (redis_client, db)
          = Inl DatabaseError)"
proof -
  have a: "process_and_store_data commits to_datetime batch_id (redis_client, db)
        = Inr (redis_client, db)" if "redis_client batch_id = None"
    using that by (simp add: process_and_store_data_def)
  have b: "\<exists>redis' db'.
           process_and_store_data commits to_datetime batch_id (redis_client, db)
             = Inr (redis', db')
           \<and> redis' batch_id = None
           \<and> length db' = length db + length process_data
           \<and> take (length db) db' = db"
    if "redis_client batch_id = Some (StagedBatch meta process_data)" "process_data \<noteq> []"
      "to_datetime (m_timestamp meta) = Some t"
      "commits (data_frame to_datetime meta process_data)"
    using materialize_success[where redis_client = redis_client and batch_id = batch_id
        and commits = commits and to_datetime = to_datetime and db = db,
        OF that(1) that(2) that(3) that(4)]
    by (simp add: data_frame_def)
  have c: "process_and_store_data commits to_datetime batch_id (redis_client, db)
          = Inl DatabaseError"
    if "redis_client batch_id = Some (StagedBatch meta process_data)" "process_data \<noteq> []"
      "to_datetime (m_timestamp meta) = None
       \<or> \<not> commits (data_frame to_datetime meta process_data)"
    using materialize_refused[where redis_client = redis_client and batch_id = batch_id
        and commits = commits and to_datetime = to_datetime and db = db,
        OF that(1) that(2) that(3)] .
  from a b c show ?thesis by blast
qed

theorem materialize_effects_witness:
  "process_and_store_data always_commits example_to_datetime ''batch_20240101115959''
       (two_staged, [])
     = Inr (two_staged, [])
   \<and> (\<exists>redis' db'.
        process_and_store_data always_commits example_to_datetime ''batch_20240101120001''
            (two_staged, [])
          = Inr (redis', db')
        \<and> redis' ''batch_20240101120001'' = None \<and> length db' = 2)
   \<and> process_and_store_data always_commits example_to_datetime ''batch_20240101120002''
        (unreadable_staged, [])
       = Inl DatabaseError"
proof -
  let ?procs = "[to_dict (process_named ''python3'' 2 1), to_dict (process_named ''bash'' 0 1)]"
  let ?bad = "staged_meta \<lparr>m_timestamp := ''not_a_timestamp''\<rparr>"
  have a: "two_staged ''batch_20240101115959'' = None"
    by (simp add: two_staged_def)
  have b: "two_staged ''batch_20240101120001'' = Some (StagedBatch staged_meta ?procs)
     \<and> ?procs \<noteq> []
     \<and> example_to_datetime (m_timestamp staged_meta) = Some (jan_1_2024 + 43200000000)
     \<and> always_commits (data_frame example_to_datetime staged_meta ?procs)"
    by (simp add: two_staged_def always_commits_def example_to_datetime_def staged_meta_def)
  have c: "unreadable_staged ''batch_20240101120002''
       = Some (StagedBatch ?bad [to_dict (process_named ''init'' 1 1)])
     \<and> [to_dict (process_named ''init'' 1 1)] \<noteq> []
     \<and> example_to_datetime (m_timestamp ?bad) = None"
    by (simp add: unreadable_staged_def example_to_datetime_def)
  from materialize_effects[where redis_client = two_staged
      and batch_id = "''batch_20240101115959''" and commits = always_commits
      and to_datetime = example_to_datetime and db = "[]"] a
  have x: "process_and_store_data always_commits example_to_datetime ''batch_20240101115959''
       (two_staged, []) = Inr (two_staged, [])"
    by blast
  from materialize_effects[where redis_client = two_staged
      and batch_id = "''batch_20240101120001''" and commits = always_commits
      and to_datetime = example_to_datetime and db = "[]" and meta = staged_meta
      and process_data = ?procs and t = "jan_1_2024 + 43200000000"] b
  have y: "\<exists>redis' db'.
        process_and_store_data always_commits example_to_datetime ''batch_20240101120001''
            (two_staged, [])
          = Inr (redis', db')
        \<and> redis' ''batch_20240101120001'' = None \<and> length db' = 2"
    by (simp add: numeral_2_eq_2)
  from materialize_effects[where redis_client = unreadable_staged
      and batch_id = "''batch_20240101120002''" and commits = always_commits
      and to_datetime = example_to_datetime and db = "[]" and meta = ?bad
      and process_data = "[to_dict (process_named ''init'' 1 1)]"] c
  have z: "process_and_store_data always_commits example_to_datetime ''batch_20240101120002''
        (unreadable_staged, []) = Inl DatabaseError"
    by blast
  from x y z show ?thesis by blast
qed

end
